theory Spec2Isabelle
  imports Complex_Main "HOL-Library.Log_Nat"
begin

section \<open>Python values of the calculator\<close>

text \<open>
  The calculator of \<^verbatim>\<open>calculator.py\<close> computes with Python numbers. An \<^verbatim>\<open>int\<close> is
  unbounded (\<^typ>\<open>int\<close>). A \<^verbatim>\<open>float\<close> is an IEEE 754 binary64 value: it is modelled by
  the rational it denotes, or one of the two infinities, or not-a-number; the two zeros
  are identified (the program raises on every zero divisor and turns an integral result
  into an \<^verbatim>\<open>int\<close>, so the sign of a zero is never observed). A \<^verbatim>\<open>complex\<close> (which
  only \<^verbatim>\<open>float.__pow__\<close> can create here) is a pair of floats.
\<close>

datatype double = Fin rat | PInf | NInf | NaN

datatype pyval = PyInt int | PyFloat double | PyComplex double double

text \<open>
  The three exception classes of the module, and the built-in exceptions that the
  statements of the module can raise.
\<close>

datatype pyerr =
    InvalidExpression | InvalidIdentifier | UnknownVariable
  | ZeroDivisionError | OverflowError | IndexError | KeyError | TypeError | ValueError

type_synonym 'a result = "pyerr + 'a"

subsection \<open>Rounding to binary64\<close>

definition pow2 :: "int \<Rightarrow> rat" where
  "pow2 k = (if 0 \<le> k then 2 ^ nat k else 1 / 2 ^ nat (- k))"

text \<open>\<open>ilog2 q\<close> is the exponent \<open>e\<close> with \<open>2\<^sup>e \<le> q < 2\<^sup>e\<^sup>+\<^sup>1\<close>, for \<open>q > 0\<close>.\<close>

definition ilog2 :: "rat \<Rightarrow> int" where
  "ilog2 q =
     (let (n, d) = quotient_of q; k = bitlen n - bitlen d
      in if pow2 k \<le> q then k else k - 1)"

definition round_half_even :: "rat \<Rightarrow> int" where
  "round_half_even q =
     (let f = \<lfloor>q\<rfloor>; r = q - of_int f
      in if r < 1 / 2 then f else if 1 / 2 < r then f + 1
         else if even f then f else f + 1)"

text \<open>
  Round to nearest, ties to even, with 53 significant bits, the least exponent of the
  subnormal range, and overflow to an infinity.
\<close>

definition round_double :: "rat \<Rightarrow> double" where
  "round_double q =
     (if q = 0 then Fin 0
      else
        let a = \<bar>q\<bar>;
            p = max (ilog2 a - 52) (- 1074);
            r = of_int (round_half_even (a / pow2 p)) * pow2 p
        in if pow2 1024 \<le> r then (if 0 < q then PInf else NInf)
           else Fin (if 0 < q then r else - r))"

subsection \<open>Float arithmetic\<close>

fun fneg :: "double \<Rightarrow> double" where
  "fneg (Fin q) = Fin (- q)"
| "fneg PInf = NInf"
| "fneg NInf = PInf"
| "fneg NaN = NaN"

fun fadd :: "double \<Rightarrow> double \<Rightarrow> double" where
  "fadd NaN _ = NaN"
| "fadd _ NaN = NaN"
| "fadd PInf NInf = NaN"
| "fadd NInf PInf = NaN"
| "fadd PInf _ = PInf"
| "fadd NInf _ = NInf"
| "fadd _ PInf = PInf"
| "fadd _ NInf = NInf"
| "fadd (Fin a) (Fin b) = round_double (a + b)"

definition fsub :: "double \<Rightarrow> double \<Rightarrow> double" where
  "fsub a b = fadd a (fneg b)"

text \<open>The sign of a float that is neither zero nor not-a-number.\<close>

fun fpositive :: "double \<Rightarrow> bool" where
  "fpositive (Fin q) = (0 < q)"
| "fpositive PInf = True"
| "fpositive NInf = False"
| "fpositive NaN = False"

definition signed_inf :: "bool \<Rightarrow> double" where
  "signed_inf pos = (if pos then PInf else NInf)"

fun fmul :: "double \<Rightarrow> double \<Rightarrow> double" where
  "fmul NaN _ = NaN"
| "fmul _ NaN = NaN"
| "fmul (Fin a) (Fin b) = round_double (a * b)"
| "fmul a b =
     (if a = Fin 0 \<or> b = Fin 0 then NaN else signed_inf (fpositive a = fpositive b))"

text \<open>IEEE division by a divisor that is not zero (Python tests for zero before).\<close>

fun fdiv :: "double \<Rightarrow> double \<Rightarrow> double" where
  "fdiv NaN _ = NaN"
| "fdiv _ NaN = NaN"
| "fdiv (Fin a) (Fin b) = round_double (a / b)"
| "fdiv (Fin a) _ = Fin 0"
| "fdiv a (Fin b) = signed_inf (fpositive a = (0 < b))"
| "fdiv _ _ = NaN"

text \<open>
  \<^verbatim>\<open>float(i)\<close> for an \<^verbatim>\<open>int\<close>: correctly rounded, \<^verbatim>\<open>OverflowError\<close> when the
  integer is too large.
\<close>

definition int_to_float :: "int \<Rightarrow> double result" where
  "int_to_float i =
     (case round_double (of_int i) of Fin q \<Rightarrow> Inr (Fin q) | _ \<Rightarrow> Inl OverflowError)"

text \<open>
  Two operations of the Python runtime are not fixed by the language: the power of
  floats (the C library's \<^verbatim>\<open>pow\<close>, which may also give a complex number or raise) and
  the arithmetic of complex numbers. They are parameters of the model.
\<close>

record py_runtime =
  float_pow :: "double \<Rightarrow> double \<Rightarrow> pyval result"
  complex_op :: "string \<Rightarrow> pyval \<Rightarrow> pyval \<Rightarrow> pyval result"

fun is_complex :: "pyval \<Rightarrow> bool" where
  "is_complex (PyComplex _ _) = True"
| "is_complex _ = False"

text \<open>The coercion of a real operand to a float, as the float operators do it.\<close>

fun to_float :: "pyval \<Rightarrow> double result" where
  "to_float (PyInt i) = int_to_float i"
| "to_float (PyFloat d) = Inr d"
| "to_float (PyComplex _ _) = Inl TypeError"

definition float_binop ::
  "(double \<Rightarrow> double \<Rightarrow> pyval result) \<Rightarrow> pyval \<Rightarrow> pyval \<Rightarrow> pyval result" where
  "float_binop f a b =
     (case to_float a of Inl e \<Rightarrow> Inl e
      | Inr x \<Rightarrow> (case to_float b of Inl e \<Rightarrow> Inl e | Inr y \<Rightarrow> f x y))"

subsection \<open>The functions of the \<^verbatim>\<open>operator\<close> module\<close>

definition operator_sub :: "py_runtime \<Rightarrow> pyval \<Rightarrow> pyval \<Rightarrow> pyval result" where
  "operator_sub rt a b =
     (case (a, b) of
        (PyInt x, PyInt y) \<Rightarrow> Inr (PyInt (x - y))
      | _ \<Rightarrow> if is_complex a \<or> is_complex b then complex_op rt ''-'' a b
             else float_binop (\<lambda>x y. Inr (PyFloat (fsub x y))) a b)"

definition operator_add :: "py_runtime \<Rightarrow> pyval \<Rightarrow> pyval \<Rightarrow> pyval result" where
  "operator_add rt a b =
     (case (a, b) of
        (PyInt x, PyInt y) \<Rightarrow> Inr (PyInt (x + y))
      | _ \<Rightarrow> if is_complex a \<or> is_complex b then complex_op rt ''+'' a b
             else float_binop (\<lambda>x y. Inr (PyFloat (fadd x y))) a b)"

definition operator_mul :: "py_runtime \<Rightarrow> pyval \<Rightarrow> pyval \<Rightarrow> pyval result" where
  "operator_mul rt a b =
     (case (a, b) of
        (PyInt x, PyInt y) \<Rightarrow> Inr (PyInt (x * y))
      | _ \<Rightarrow> if is_complex a \<or> is_complex b then complex_op rt ''*'' a b
             else float_binop (\<lambda>x y. Inr (PyFloat (fmul x y))) a b)"

text \<open>
  \<^verbatim>\<open>operator.truediv\<close>: the quotient of two integers is the correctly rounded float of
  the exact quotient; a zero divisor raises \<^verbatim>\<open>ZeroDivisionError\<close>.
\<close>

definition operator_truediv :: "py_runtime \<Rightarrow> pyval \<Rightarrow> pyval \<Rightarrow> pyval result" where
  "operator_truediv rt a b =
     (case (a, b) of
        (PyInt x, PyInt y) \<Rightarrow>
          if y = 0 then Inl ZeroDivisionError
          else (case round_double (of_int x / of_int y) of
                  Fin q \<Rightarrow> Inr (PyFloat (Fin q))
                | _ \<Rightarrow> Inl OverflowError)
      | _ \<Rightarrow> if is_complex a \<or> is_complex b then complex_op rt ''/'' a b
             else float_binop
               (\<lambda>x y. if y = Fin 0 then Inl ZeroDivisionError else Inr (PyFloat (fdiv x y)))
               a b)"

text \<open>
  \<^verbatim>\<open>operator.pow\<close>: exact on integers with an exponent that is not negative; every other
  real case is the power of floats.
\<close>

definition operator_pow :: "py_runtime \<Rightarrow> pyval \<Rightarrow> pyval \<Rightarrow> pyval result" where
  "operator_pow rt a b =
     (case (a, b) of
        (PyInt x, PyInt y) \<Rightarrow>
          if 0 \<le> y then Inr (PyInt (x ^ nat y)) else float_binop (float_pow rt) a b
      | _ \<Rightarrow> if is_complex a \<or> is_complex b then complex_op rt ''^'' a b
             else float_binop (float_pow rt) a b)"

fun operator_neg :: "pyval \<Rightarrow> pyval" where
  "operator_neg (PyInt i) = PyInt (- i)"
| "operator_neg (PyFloat d) = PyFloat (fneg d)"
| "operator_neg (PyComplex re im) = PyComplex (fneg re) (fneg im)"

definition operator_pos :: "pyval \<Rightarrow> pyval" where
  "operator_pos v = v"


section \<open>The class \<^verbatim>\<open>Calculator\<close>\<close>

subsection \<open>The class variables\<close>

definition precedence :: "string \<rightharpoonup> int" where
  "precedence =
     map_of [(''-'', 1), (''+'', 1), (''/'', 2), (''*'', 2), (''^'', 3)]"

definition binary_operators ::
  "py_runtime \<Rightarrow> string \<rightharpoonup> (pyval \<Rightarrow> pyval \<Rightarrow> pyval result)" where
  "binary_operators rt =
     map_of [(''-'', operator_sub rt), (''+'', operator_add rt),
             (''/'', operator_truediv rt), (''*'', operator_mul rt),
             (''^'', operator_pow rt)]"

definition unary_operators :: "string \<rightharpoonup> (pyval \<Rightarrow> pyval)" where
  "unary_operators = map_of [(''-'', operator_neg), (''+'', operator_pos)]"

text \<open>
  \<^verbatim>\<open>token in Calculator.binary_operators\<close> and \<^verbatim>\<open>token in Calculator.unary_operators\<close>
  test the keys only.
\<close>

definition in_binary_operators :: "string \<Rightarrow> bool" where
  "in_binary_operators token = (token \<in> set [''-'', ''+'', ''/'', ''*'', ''^''])"

definition in_unary_operators :: "string \<Rightarrow> bool" where
  "in_unary_operators token = (token \<in> set [''-'', ''+''])"

subsection \<open>Strings\<close>

text \<open>
  A \<^typ>\<open>char\<close> stands for one code point below 256. \<^verbatim>\<open>string.digits\<close> and
  \<^verbatim>\<open>string.ascii_letters\<close> are the constants of the standard library.
\<close>

definition digits :: string where
  "digits = ''0123456789''"

definition ascii_letters :: string where
  "ascii_letters = ''abcdefghijklmnopqrstuvwxyzABCDEFGHIJKLMNOPQRSTUVWXYZ''"

text \<open>
  \<^verbatim>\<open>int(token)\<close> for a token of decimal digits; the empty string is no integer
  literal and raises \<^verbatim>\<open>ValueError\<close>. The integers are unbounded: the limit that
  recent interpreters put on the number of digits of a literal is not modelled.
\<close>

definition digit_value :: "char \<Rightarrow> int" where
  "digit_value c = of_char c - 48"

definition py_int_of_str :: "string \<Rightarrow> int result" where
  "py_int_of_str token =
     (if token = [] then Inl ValueError
      else Inr (foldl (\<lambda>n c. 10 * n + digit_value c) 0 token))"

subsection \<open>\<^verbatim>\<open>compute_postfix_expresion\<close>\<close>

text \<open>
  An element of a postfix expression (\<^verbatim>\<open>List[Union[str, float]]\<close>) is a string or a
  number.
\<close>

datatype item = Str string | Num pyval

text \<open>
  The value stack is a list whose head is the top (\<^verbatim>\<open>stack[-1]\<close>). One pass of the
  \<^verbatim>\<open>for\<close> loop: a string that is a binary operator, with two values on the stack,
  replaces them by \<^verbatim>\<open>operator_(a, b)\<close>; an \<^verbatim>\<open>int\<close> is pushed; everything else raises
  \<^verbatim>\<open>InvalidExpression\<close>.
\<close>

fun compute_token :: "py_runtime \<Rightarrow> pyval list \<Rightarrow> item \<Rightarrow> pyval list result" where
  "compute_token rt stack token =
     (case (token, stack) of
        (Str s, b # a # rest) \<Rightarrow>
          (case binary_operators rt s of
             Some operator_ \<Rightarrow>
               (case operator_ a b of Inl e \<Rightarrow> Inl e | Inr v \<Rightarrow> Inr (v # rest))
           | None \<Rightarrow> Inl InvalidExpression)
      | (Num (PyInt i), _) \<Rightarrow> Inr (PyInt i # stack)
      | _ \<Rightarrow> Inl InvalidExpression)"

fun compute_loop :: "py_runtime \<Rightarrow> pyval list \<Rightarrow> item list \<Rightarrow> pyval list result" where
  "compute_loop rt stack [] = Inr stack"
| "compute_loop rt stack (token # tokens) =
     (case compute_token rt stack token of
        Inl e \<Rightarrow> Inl e
      | Inr stack' \<Rightarrow> compute_loop rt stack' tokens)"

text \<open>
  \<^verbatim>\<open>stack[-1] % 1 == 0\<close>: always true of an \<^verbatim>\<open>int\<close>, true of a float exactly when
  it is finite and integral (the remainder of an infinity or of not-a-number is
  not-a-number), and a \<^verbatim>\<open>TypeError\<close> on a complex number.
\<close>

fun mod_1_is_zero :: "pyval \<Rightarrow> bool result" where
  "mod_1_is_zero (PyInt i) = Inr True"
| "mod_1_is_zero (PyFloat (Fin q)) = Inr (q = of_int \<lfloor>q\<rfloor>)"
| "mod_1_is_zero (PyFloat _) = Inr False"
| "mod_1_is_zero (PyComplex _ _) = Inl TypeError"

text \<open>\<^verbatim>\<open>int(x)\<close>, used on a finite number only.\<close>

fun py_int :: "pyval \<Rightarrow> pyval" where
  "py_int (PyFloat (Fin q)) = PyInt \<lfloor>q\<rfloor>"
| "py_int v = v"

text \<open>
  After the loop: \<^verbatim>\<open>stack[-1]\<close> of an empty list raises \<^verbatim>\<open>IndexError\<close>; otherwise
  the top is converted if it is integral, and popped.
\<close>

definition compute_result :: "pyval list \<Rightarrow> pyval result" where
  "compute_result stack =
     (case stack of
        [] \<Rightarrow> Inl IndexError
      | topmost # _ \<Rightarrow>
          (case mod_1_is_zero topmost of
             Inl e \<Rightarrow> Inl e
           | Inr z \<Rightarrow> Inr (if z then py_int topmost else topmost)))"

definition compute_postfix_expresion :: "py_runtime \<Rightarrow> item list \<Rightarrow> pyval result" where
  "compute_postfix_expresion rt postfix_expression =
     (case compute_loop rt [] postfix_expression of
        Inl e \<Rightarrow> Inl e
      | Inr stack \<Rightarrow> compute_result stack)"


subsection \<open>\<^verbatim>\<open>transform_infix_to_postfix\<close>\<close>

text \<open>
  The local variables of the method. The two operator stacks are lists whose head is
  the top; \<^verbatim>\<open>postfix_expression\<close> grows at its end, as \<^verbatim>\<open>append\<close> does.
\<close>

record transform_state =
  binary_operators_stack :: "string list"
  unary_operators_stack :: "string list"
  next_operator_is_binary :: bool
  postfix_expression :: "item list"

definition initial_state :: transform_state where
  "initial_state =
     \<lparr>binary_operators_stack = [], unary_operators_stack = [],
      next_operator_is_binary = False, postfix_expression = []\<rparr>"

text \<open>
  The \<^verbatim>\<open>while\<close> loop of the binary operator branch: it moves operators from the stack
  to the output while the top is not \<^verbatim>\<open>(\<close> and
  \<^verbatim>\<open>precedence[token] <= precedence[topmost]\<close>. A key missing from \<^verbatim>\<open>precedence\<close> raises
  \<^verbatim>\<open>KeyError\<close>.
\<close>

fun pop_higher_precedence ::
  "string \<Rightarrow> string list \<Rightarrow> item list \<Rightarrow> (string list \<times> item list) result" where
  "pop_higher_precedence token [] out = Inr ([], out)"
| "pop_higher_precedence token (topmost # rest) out =
     (if topmost \<noteq> ''(''
      then (case precedence token of
              None \<Rightarrow> Inl KeyError
            | Some p \<Rightarrow>
                (case precedence topmost of
                   None \<Rightarrow> Inl KeyError
                 | Some q \<Rightarrow>
                     if p \<le> q then pop_higher_precedence token rest (out @ [Str topmost])
                     else Inr (topmost # rest, out)))
      else Inr (topmost # rest, out))"

text \<open>
  The \<^verbatim>\<open>while unary_operators_stack\<close> loop: the pending unary operators are applied
  to the number, the last pushed first.
\<close>

fun apply_unary_operators :: "string list \<Rightarrow> pyval \<Rightarrow> pyval result" where
  "apply_unary_operators [] number = Inr number"
| "apply_unary_operators (topmost # rest) number =
     (case unary_operators topmost of
        None \<Rightarrow> Inl KeyError
      | Some operator_ \<Rightarrow> apply_unary_operators rest (operator_ number))"

text \<open>
  The two \<^verbatim>\<open>while binary_operators_stack and binary_operators_stack[-1] != '('\<close>
  loops (closing parenthesis, and after the scan).
\<close>

fun pop_until_paren :: "string list \<Rightarrow> item list \<Rightarrow> string list \<times> item list" where
  "pop_until_paren [] out = ([], out)"
| "pop_until_paren (topmost # rest) out =
     (if topmost \<noteq> ''('' then pop_until_paren rest (out @ [Str topmost]) else (topmost # rest, out))"

text \<open>The operand branches share the folding of the unary operators.\<close>

definition emit_operand :: "transform_state \<Rightarrow> pyval \<Rightarrow> transform_state result" where
  "emit_operand st number =
     (case apply_unary_operators (unary_operators_stack st) number of
        Inl e \<Rightarrow> Inl e
      | Inr number' \<Rightarrow>
          Inr (st\<lparr>unary_operators_stack := [],
                  postfix_expression := postfix_expression st @ [Num number'],
                  next_operator_is_binary := True\<rparr>))"

text \<open>One pass of the \<^verbatim>\<open>for token in infix_expression\<close> loop, branch by branch.\<close>

definition transform_token ::
  "(string \<rightharpoonup> pyval) \<Rightarrow> transform_state \<Rightarrow> string \<Rightarrow> transform_state result" where
  "transform_token variables st token =
     (if next_operator_is_binary st \<and> in_binary_operators token then
        (case pop_higher_precedence token (binary_operators_stack st) (postfix_expression st) of
           Inl e \<Rightarrow> Inl e
         | Inr (stack, out) \<Rightarrow>
             Inr (st\<lparr>binary_operators_stack := token # stack,
                     postfix_expression := out,
                     next_operator_is_binary := False\<rparr>))
      else if in_unary_operators token \<and> \<not> next_operator_is_binary st then
        Inr (st\<lparr>unary_operators_stack := token # unary_operators_stack st\<rparr>)
      else if set token \<subseteq> set digits \<and> \<not> next_operator_is_binary st then
        (case py_int_of_str token of
           Inl e \<Rightarrow> Inl e
         | Inr n \<Rightarrow> emit_operand st (PyInt n))
      else if set token \<subseteq> set ascii_letters \<and> \<not> next_operator_is_binary st then
        (case variables token of
           None \<Rightarrow> Inl UnknownVariable
         | Some number \<Rightarrow> emit_operand st number)
      else if token = ''('' \<and> \<not> next_operator_is_binary st then
        (if unary_operators_stack st \<noteq> [] then Inl InvalidExpression
         else Inr (st\<lparr>binary_operators_stack := token # binary_operators_stack st\<rparr>))
      else if token = '')'' \<and> next_operator_is_binary st then
        (case pop_until_paren (binary_operators_stack st) (postfix_expression st) of
           ([], out) \<Rightarrow> Inl InvalidExpression
         | (paren # stack, out) \<Rightarrow>
             Inr (st\<lparr>binary_operators_stack := stack, postfix_expression := out\<rparr>))
      else if set token \<inter> set ascii_letters \<noteq> {} \<and> set token \<inter> set digits \<noteq> {} then
        Inl InvalidIdentifier
      else Inl InvalidExpression)"

fun transform_loop ::
  "(string \<rightharpoonup> pyval) \<Rightarrow> transform_state \<Rightarrow> string list \<Rightarrow> transform_state result" where
  "transform_loop variables st [] = Inr st"
| "transform_loop variables st (token # tokens) =
     (case transform_token variables st token of
        Inl e \<Rightarrow> Inl e
      | Inr st' \<Rightarrow> transform_loop variables st' tokens)"

text \<open>
  After the scan the remaining operators are moved to the output; a \<^verbatim>\<open>(\<close> left on
  the stack raises \<^verbatim>\<open>InvalidExpression\<close>.
\<close>

definition transform_finish :: "transform_state \<Rightarrow> item list result" where
  "transform_finish st =
     (case pop_until_paren (binary_operators_stack st) (postfix_expression st) of
        ([], out) \<Rightarrow> Inr out
      | (paren # stack, out) \<Rightarrow> Inl InvalidExpression)"

definition transform_infix_to_postfix ::
  "(string \<rightharpoonup> pyval) \<Rightarrow> string list \<Rightarrow> item list result" where
  "transform_infix_to_postfix variables infix_expression =
     (case transform_loop variables initial_state infix_expression of
        Inl e \<Rightarrow> Inl e
      | Inr st \<Rightarrow> transform_finish st)"


subsection \<open>\<^verbatim>\<open>remove_extra_spaces\<close> and the string methods\<close>

text \<open>
  The white space of \<^verbatim>\<open>str.strip\<close>, \<^verbatim>\<open>str.split\<close> and of \<^verbatim>\<open>\s\<close> in a pattern, among
  the code points below 256.
\<close>

definition isspace :: "char \<Rightarrow> bool" where
  "isspace c =
     (let n = (of_char c :: nat)
      in (9 \<le> n \<and> n \<le> 13) \<or> (28 \<le> n \<and> n \<le> 32) \<or> n = 133 \<or> n = 160)"

definition strip :: "string \<Rightarrow> string" where
  "strip s = rev (dropWhile isspace (rev (dropWhile isspace s)))"

text \<open>The characters of the class \<^verbatim>\<open>[-+/*^()=]\<close> of \<^verbatim>\<open>supported_operators\<close>.\<close>

definition supported_operator :: "char \<Rightarrow> bool" where
  "supported_operator c = (c \<in> set ''-+/*^()='')"

text \<open>
  \<^verbatim>\<open>re.sub(supported_operators, r' \1 ', s)\<close>: from the left, a run of white space
  followed by an operator character and the white space after it is replaced by the
  character between two spaces; a character where no such match starts is kept.
\<close>

function sub_supported_operators :: "string \<Rightarrow> string" where
  "sub_supported_operators [] = []"
| "sub_supported_operators (c # cs) =
     (case dropWhile isspace (c # cs) of
        [] \<Rightarrow> c # sub_supported_operators cs
      | x # rest \<Rightarrow>
          if supported_operator x
          then CHR '' '' # x # CHR '' '' # sub_supported_operators (dropWhile isspace rest)
          else c # sub_supported_operators cs)"
  by pat_completeness auto
termination
proof (relation "measure length")
  fix c :: char and cs x rest
  assume "dropWhile isspace (c # cs) = x # rest"
  then have "length (x # rest) \<le> length (c # cs)"
    by (metis length_dropWhile_le)
  moreover have "length (dropWhile isspace rest) \<le> length rest"
    by (rule length_dropWhile_le)
  ultimately show "(dropWhile isspace rest, c # cs) \<in> measure length"
    by simp
qed simp_all

definition remove_extra_spaces :: "string \<Rightarrow> string" where
  "remove_extra_spaces expression = sub_supported_operators (strip expression)"

text \<open>\<^verbatim>\<open>s.split()\<close>: the maximal runs of characters that are not white space.\<close>

function split :: "string \<Rightarrow> string list" where
  "split s =
     (case dropWhile isspace s of
        [] \<Rightarrow> []
      | c # cs \<Rightarrow>
          takeWhile (\<lambda>x. \<not> isspace x) (c # cs) # split (dropWhile (\<lambda>x. \<not> isspace x) cs))"
  by pat_completeness auto
termination
proof (relation "measure length")
  fix s :: string and c cs
  assume "dropWhile isspace s = c # cs"
  then have "length (c # cs) \<le> length s"
    by (metis length_dropWhile_le)
  moreover have "length (dropWhile (\<lambda>x. \<not> isspace x) cs) \<le> length cs"
    by (rule length_dropWhile_le)
  ultimately show "(dropWhile (\<lambda>x. \<not> isspace x) cs, s) \<in> measure length"
    by simp
qed simp

text \<open>
  \<^verbatim>\<open>s.split(sep, 1)\<close> unpacked into two names: the parts before and after the first
  occurrence of \<^verbatim>\<open>sep\<close>; without an occurrence the unpacking raises \<^verbatim>\<open>ValueError\<close>.
\<close>

fun split_once :: "string \<Rightarrow> string \<Rightarrow> string \<Rightarrow> (string \<times> string) result" where
  "split_once sep left s =
     (if take (length sep) s = sep then Inr (left, drop (length sep) s)
      else (case s of
              [] \<Rightarrow> Inl ValueError
            | c # cs \<Rightarrow> split_once sep (left @ [c]) cs))"

declare sub_supported_operators.simps [simp del] split.simps [simp del]
  split_once.simps [simp del]

subsection \<open>\<^verbatim>\<open>process_expression\<close> and \<^verbatim>\<open>process_assignment\<close>\<close>

text \<open>
  What a call does besides changing \<^verbatim>\<open>self._variables\<close>: it prints a number or a
  message, or nothing, or an exception that no \<^verbatim>\<open>except\<close> clause catches leaves it.
\<close>

datatype effect = Print_value pyval | Print string | Nothing | Raise pyerr

text \<open>The argument of both callers: the transformation followed by the evaluation.\<close>

definition evaluate :: "py_runtime \<Rightarrow> (string \<rightharpoonup> pyval) \<Rightarrow> string list \<Rightarrow> pyval result" where
  "evaluate rt variables infix_expression =
     (case transform_infix_to_postfix variables infix_expression of
        Inl e \<Rightarrow> Inl e
      | Inr postfix \<Rightarrow> compute_postfix_expresion rt postfix)"

definition process_expression ::
  "py_runtime \<Rightarrow> (string \<rightharpoonup> pyval) \<Rightarrow> string \<Rightarrow> (string \<rightharpoonup> pyval) \<times> effect" where
  "process_expression rt variables expression =
     (let infix_expression = split (remove_extra_spaces expression)
      in (variables,
          case evaluate rt variables infix_expression of
            Inr v \<Rightarrow> Print_value v
          | Inl InvalidExpression \<Rightarrow> Print ''Invalid expression''
          | Inl UnknownVariable \<Rightarrow> Print ''Unknown variable''
          | Inl InvalidIdentifier \<Rightarrow> Print ''Invalid identifier''
          | Inl e \<Rightarrow> Raise e))"

definition process_assignment ::
  "py_runtime \<Rightarrow> (string \<rightharpoonup> pyval) \<Rightarrow> string \<Rightarrow> (string \<rightharpoonup> pyval) \<times> effect" where
  "process_assignment rt variables string =
     (case split_once '' = '' [] (remove_extra_spaces string) of
        Inl e \<Rightarrow> (variables, Raise e)
      | Inr (identifier, expression) \<Rightarrow>
          let infix_expression = split expression
          in if set identifier \<subseteq> set ascii_letters then
               (case evaluate rt variables infix_expression of
                  Inl InvalidExpression \<Rightarrow> (variables, Print ''Invalid assignment'')
                | Inl InvalidIdentifier \<Rightarrow> (variables, Print ''Invalid assignment'')
                | Inl UnknownVariable \<Rightarrow> (variables, Print ''Unknown variable'')
                | Inl e \<Rightarrow> (variables, Raise e)
                | Inr v \<Rightarrow> (variables(identifier \<mapsto> v), Nothing))
             else (variables, Print ''Invalid identifier''))"


section \<open>Notions of the properties\<close>

text \<open>
  An instance of the runtime parameters, for the evaluation of examples: the power of
  floats and the complex arithmetic raise.
\<close>

definition raising_runtime :: py_runtime where
  "raising_runtime =
     \<lparr>float_pow = (\<lambda>x y. Inl OverflowError), complex_op = (\<lambda>s a b. Inl OverflowError)\<rparr>"

text \<open>The number that a value denotes exactly, when it is an integer or a finite float.\<close>

fun exact_value :: "pyval \<Rightarrow> rat option" where
  "exact_value (PyInt i) = Some (of_int i)"
| "exact_value (PyFloat (Fin q)) = Some q"
| "exact_value _ = None"

text \<open>
  The binary operator stack of a scan holds binary operators and left parentheses only,
  and the unary operator stack holds unary operators only.
\<close>

definition operators_only :: "string list \<Rightarrow> bool" where
  "operators_only stack = (\<forall>s\<in>set stack. s = ''('' \<or> in_binary_operators s)"

definition signs_only :: "string list \<Rightarrow> bool" where
  "signs_only stack = (\<forall>s\<in>set stack. in_unary_operators s)"

definition well_formed :: "transform_state \<Rightarrow> bool" where
  "well_formed st =
     (operators_only (binary_operators_stack st) \<and> signs_only (unary_operators_stack st))"

text \<open>
  \<open>popped_by token s\<close>: the operator \<open>s\<close> on top of the stack is moved to the output when
  the binary operator \<open>token\<close> arrives.
\<close>

definition popped_by :: "string \<Rightarrow> string \<Rightarrow> bool" where
  "popped_by token s =
     (s \<noteq> ''('' \<and>
      (case (precedence token, precedence s) of
         (Some p, Some q) \<Rightarrow> p \<le> q
       | _ \<Rightarrow> False))"

text \<open>
  \<open>ascending stack\<close>: between two parentheses, every operator of the stack has a
  precedence greater than the operator beneath it.
\<close>

fun ascending :: "string list \<Rightarrow> bool" where
  "ascending [] = True"
| "ascending [s] = True"
| "ascending (s # t # rest) =
     ((s = ''('' \<or> t = ''('' \<or> \<not> popped_by s t) \<and> ascending (t # rest))"

text \<open>
  The nesting depth of the parentheses of a token sequence, from a depth \<open>d\<close>; there is
  none when a \<^verbatim>\<open>)\<close> closes nothing. A sequence is balanced when it ends at depth 0.
\<close>

fun paren_depth :: "nat \<Rightarrow> string list \<Rightarrow> nat option" where
  "paren_depth d [] = Some d"
| "paren_depth d (token # tokens) =
     (if token = ''('' then paren_depth (Suc d) tokens
      else if token = '')'' then (case d of 0 \<Rightarrow> None | Suc d' \<Rightarrow> paren_depth d' tokens)
      else paren_depth d tokens)"

definition balanced :: "string list \<Rightarrow> bool" where
  "balanced tokens = (paren_depth 0 tokens = Some 0)"

definition open_parens :: "string list \<Rightarrow> nat" where
  "open_parens stack = length (filter (\<lambda>s. s = ''('') stack)"

text \<open>
  A token that by itself raises nothing but \<^verbatim>\<open>InvalidExpression\<close>: it is not empty, it
  does not mix letters and digits, and if it is a name, the name has a value.
\<close>

definition plain_token :: "(string \<rightharpoonup> pyval) \<Rightarrow> string \<Rightarrow> bool" where
  "plain_token variables token =
     (token \<noteq> []
      \<and> (set token \<inter> set ascii_letters = {} \<or> set token \<inter> set digits = {})
      \<and> (set token \<subseteq> set ascii_letters \<longrightarrow> variables token \<noteq> None))"

section \<open>Properties\<close>

subsection \<open>Evaluation of the tables and of small numbers\<close>

lemma binary_operators_simps:
  "binary_operators rt ''-'' = Some (operator_sub rt)"
  "binary_operators rt ''+'' = Some (operator_add rt)"
  "binary_operators rt ''/'' = Some (operator_truediv rt)"
  "binary_operators rt ''*'' = Some (operator_mul rt)"
  "binary_operators rt ''^'' = Some (operator_pow rt)"
  by (simp_all add: binary_operators_def)

lemma round_double_half: "round_double (1 / 2) = Fin (1 / 2)"
  by code_simp

lemma round_double_5: "round_double 5 = Fin 5"
  by code_simp

lemma floor_half_rat: "\<lfloor>1 / 2 :: rat\<rfloor> = 0"
  by code_simp

subsection \<open>The evaluator and operands that are floats\<close>

text \<open>
  C1. The claim is that the evaluator pushes every numeric operand of the postfix
  sequence, also a value such as 0.5 read from the variables. The code pushes an
  operand only when it is an \<^verbatim>\<open>int\<close> (\<^verbatim>\<open>isinstance(token, int)\<close>): a float operand
  raises \<^verbatim>\<open>InvalidExpression\<close>, whatever the stack. After the assignment
  \<^verbatim>\<open>x = 1 / 2\<close>, which stores 0.5, the expression \<^verbatim>\<open>x\<close> is answered by
  \<^verbatim>\<open>Invalid expression\<close>.
\<close>

theorem float_operand_raises:
  "compute_token rt stack (Num (PyFloat d)) = Inl InvalidExpression
   \<and> compute_postfix_expresion rt [Num (PyFloat (Fin (1 / 2)))] = Inl InvalidExpression
   \<and> evaluate rt Map.empty [''1'', ''/'', ''2''] = Inr (PyFloat (Fin (1 / 2)))
   \<and> transform_infix_to_postfix [''x'' \<mapsto> PyFloat (Fin (1 / 2))] [''x'']
       = Inr [Num (PyFloat (Fin (1 / 2)))]
   \<and> evaluate rt [''x'' \<mapsto> PyFloat (Fin (1 / 2))] [''x''] = Inl InvalidExpression
   \<and> process_assignment rt Map.empty ''x = 1 / 2''
       = ([''x'' \<mapsto> PyFloat (Fin (1 / 2))], Nothing)
   \<and> process_expression rt [''x'' \<mapsto> PyFloat (Fin (1 / 2))] ''x''
       = ([''x'' \<mapsto> PyFloat (Fin (1 / 2))], Print ''Invalid expression'')"
proof -
  have tok: "compute_token rt stack (Num (PyFloat d)) = Inl InvalidExpression"
    by simp
  have half: "compute_postfix_expresion rt [Num (PyFloat (Fin (1 / 2)))]
       = Inl InvalidExpression"
    by (simp add: compute_postfix_expresion_def)
  have tr: "transform_infix_to_postfix [''x'' \<mapsto> PyFloat (Fin (1 / 2))] [''x'']
       = Inr [Num (PyFloat (Fin (1 / 2)))]"
    by code_simp
  have tr2: "transform_infix_to_postfix Map.empty [''1'', ''/'', ''2'']
       = Inr [Num (PyInt 1), Num (PyInt 2), Str ''/'']"
    by code_simp
  have ev: "compute_postfix_expresion rt [Num (PyInt 1), Num (PyInt 2), Str ''/'']
       = Inr (PyFloat (Fin (1 / 2)))"
    by (simp add: compute_postfix_expresion_def binary_operators_simps operator_truediv_def
        round_double_half compute_result_def floor_half_rat)
  have assign: "evaluate rt Map.empty [''1'', ''/'', ''2''] = Inr (PyFloat (Fin (1 / 2)))"
    by (simp only: evaluate_def tr2 ev sum.case)
  have use: "evaluate rt [''x'' \<mapsto> PyFloat (Fin (1 / 2))] [''x''] = Inl InvalidExpression"
    by (simp only: evaluate_def tr half sum.case)
  have s1: "remove_extra_spaces ''x = 1 / 2'' = ''x = 1 / 2''"
    by code_simp
  have s2: "split_once '' = '' [] ''x = 1 / 2'' = Inr (''x'', ''1 / 2'')"
    by (simp add: split_once.simps)
  have s3: "split ''1 / 2'' = [''1'', ''/'', ''2'']"
    by code_simp
  have s4: "split (remove_extra_spaces ''x'') = [''x'']"
    by code_simp
  have pa: "process_assignment rt Map.empty ''x = 1 / 2''
       = ([''x'' \<mapsto> PyFloat (Fin (1 / 2))], Nothing)"
    by (simp add: process_assignment_def s1 s2 s3 assign ascii_letters_def)
  have pe: "process_expression rt [''x'' \<mapsto> PyFloat (Fin (1 / 2))] ''x''
       = ([''x'' \<mapsto> PyFloat (Fin (1 / 2))], Print ''Invalid expression'')"
    by (simp add: process_expression_def s4 use)
  from tok half assign tr use pa pe show ?thesis
    by (intro conjI)
qed

subsection \<open>Division by zero\<close>

text \<open>
  C3. There is a postfix sequence whose evaluation neither returns a value nor raises
  one of the three exceptions of the module: the operands 1 and 0 followed by \<^verbatim>\<open>/\<close>,
  which the transformer produces from the tokens \<^verbatim>\<open>1 / 0\<close>. The division raises
  \<^verbatim>\<open>ZeroDivisionError\<close>, and \<^verbatim>\<open>process_expression\<close> does not catch it.
\<close>

theorem division_by_zero_escapes:
  "(\<exists>postfix e. compute_postfix_expresion rt postfix = Inl e
      \<and> e \<notin> {InvalidExpression, InvalidIdentifier, UnknownVariable})
   \<and> transform_infix_to_postfix variables [''1'', ''/'', ''0'']
       = Inr [Num (PyInt 1), Num (PyInt 0), Str ''/'']
   \<and> compute_postfix_expresion rt [Num (PyInt 1), Num (PyInt 0), Str ''/'']
       = Inl ZeroDivisionError
   \<and> process_expression rt variables ''1 / 0'' = (variables, Raise ZeroDivisionError)"
proof -
  have tr: "transform_infix_to_postfix variables [''1'', ''/'', ''0'']
       = Inr [Num (PyInt 1), Num (PyInt 0), Str ''/'']"
    by (simp add: transform_infix_to_postfix_def initial_state_def transform_token_def
        in_binary_operators_def in_unary_operators_def digits_def py_int_of_str_def
        digit_value_def emit_operand_def transform_finish_def)
  have ev: "compute_postfix_expresion rt [Num (PyInt 1), Num (PyInt 0), Str ''/'']
       = Inl ZeroDivisionError"
    by (simp add: compute_postfix_expresion_def binary_operators_simps operator_truediv_def)
  have tok: "split (remove_extra_spaces ''1 / 0'') = [''1'', ''/'', ''0'']"
    by code_simp
  have ex: "\<exists>postfix e. compute_postfix_expresion rt postfix = Inl e
      \<and> e \<notin> {InvalidExpression, InvalidIdentifier, UnknownVariable}"
    using ev by (intro exI [of _ "[Num (PyInt 1), Num (PyInt 0), Str ''/'']"]
        exI [of _ ZeroDivisionError]) simp
  have pr: "process_expression rt variables ''1 / 0'' = (variables, Raise ZeroDivisionError)"
    by (simp add: process_expression_def tok evaluate_def tr ev)
  from ex tr ev pr show ?thesis
    by (intro conjI)
qed

subsection \<open>The result of the evaluator\<close>

lemma compute_result_Inr:
  "compute_result stack = Inr v \<Longrightarrow>
     \<exists>topmost rest. stack = topmost # rest
       \<and> (case exact_value topmost of
            Some q \<Rightarrow> if q \<in> \<int> then v = PyInt \<lfloor>q\<rfloor> else v = topmost
          | None \<Rightarrow> v = topmost)"
proof (cases stack)
  case Nil
  assume "compute_result stack = Inr v"
  with Nil show ?thesis by (simp add: compute_result_def)
next
  case (Cons a list)
  assume r: "compute_result stack = Inr v"
  show ?thesis
  proof (cases a)
    case (PyInt i)
    with Cons r show ?thesis by (auto simp add: compute_result_def)
  next
    case (PyFloat d)
    with Cons r show ?thesis by (cases d) (auto simp add: compute_result_def Ints_def)
  next
    case (PyComplex re im)
    with Cons r show ?thesis by (auto simp add: compute_result_def)
  qed
qed

lemma compute_result_not_integral_float:
  "compute_result stack = Inr (PyFloat (Fin q)) \<Longrightarrow> q \<notin> \<int>"
proof (cases stack)
  case Nil
  assume "compute_result stack = Inr (PyFloat (Fin q))"
  with Nil show ?thesis by (simp add: compute_result_def)
next
  case (Cons a list)
  assume r: "compute_result stack = Inr (PyFloat (Fin q))"
  show ?thesis
  proof (cases a)
    case (PyInt i)
    with Cons r show ?thesis by (auto simp add: compute_result_def)
  next
    case (PyFloat d)
    with Cons r show ?thesis
      by (cases d) (auto simp add: compute_result_def Ints_def split: if_splits)
  next
    case (PyComplex re im)
    with Cons r show ?thesis by (auto simp add: compute_result_def)
  qed
qed

lemma transform_three_tokens:
  "transform_infix_to_postfix variables [''10'', ''/'', ''2'']
     = Inr [Num (PyInt 10), Num (PyInt 2), Str ''/'']"
  "transform_infix_to_postfix variables [''1'', ''/'', ''2'']
     = Inr [Num (PyInt 1), Num (PyInt 2), Str ''/'']"
  by (simp_all add: transform_infix_to_postfix_def initial_state_def transform_token_def
      in_binary_operators_def in_unary_operators_def digits_def py_int_of_str_def
      digit_value_def emit_operand_def transform_finish_def)

lemma compute_ten_by_two:
  "compute_postfix_expresion rt [Num (PyInt 10), Num (PyInt 2), Str ''/''] = Inr (PyInt 5)"
  by (simp add: compute_postfix_expresion_def binary_operators_simps operator_truediv_def
      round_double_5 compute_result_def)

lemma compute_one_by_two:
  "compute_postfix_expresion rt [Num (PyInt 1), Num (PyInt 2), Str ''/'']
     = Inr (PyFloat (Fin (1 / 2)))"
  by (simp add: compute_postfix_expresion_def binary_operators_simps operator_truediv_def
      round_double_half compute_result_def floor_half_rat)

text \<open>
  C5. Whenever the evaluation succeeds, the result is the top of the stack after the
  loop: as an \<^verbatim>\<open>int\<close> of the same value when that value is integral, and unchanged
  otherwise; so a returned finite float is never integral. The tokens \<^verbatim>\<open>10 / 2\<close> give
  the integer 5 and the tokens \<^verbatim>\<open>1 / 2\<close> give the float 0.5.
\<close>

theorem integral_result_is_int:
  "(compute_postfix_expresion rt postfix = Inr v \<longrightarrow>
      (\<exists>topmost rest. compute_loop rt [] postfix = Inr (topmost # rest)
         \<and> (case exact_value topmost of
              Some q \<Rightarrow> if q \<in> \<int> then v = PyInt \<lfloor>q\<rfloor> else v = topmost
            | None \<Rightarrow> v = topmost))
      \<and> (\<forall>q. v = PyFloat (Fin q) \<longrightarrow> q \<notin> \<int>))
   \<and> evaluate rt variables [''10'', ''/'', ''2''] = Inr (PyInt 5)
   \<and> evaluate rt variables [''1'', ''/'', ''2''] = Inr (PyFloat (Fin (1 / 2)))"
proof -
  have general: "(\<exists>topmost rest. compute_loop rt [] postfix = Inr (topmost # rest)
         \<and> (case exact_value topmost of
              Some q \<Rightarrow> if q \<in> \<int> then v = PyInt \<lfloor>q\<rfloor> else v = topmost
            | None \<Rightarrow> v = topmost))
      \<and> (\<forall>q. v = PyFloat (Fin q) \<longrightarrow> q \<notin> \<int>)"
    if ok: "compute_postfix_expresion rt postfix = Inr v"
  proof -
    from ok obtain stack where
      loop: "compute_loop rt [] postfix = Inr stack" and res: "compute_result stack = Inr v"
      by (auto simp add: compute_postfix_expresion_def split: sum.splits)
    from compute_result_Inr [OF res] loop
    have "\<exists>topmost rest. compute_loop rt [] postfix = Inr (topmost # rest)
         \<and> (case exact_value topmost of
              Some q \<Rightarrow> if q \<in> \<int> then v = PyInt \<lfloor>q\<rfloor> else v = topmost
            | None \<Rightarrow> v = topmost)"
      by auto
    moreover have "\<forall>q. v = PyFloat (Fin q) \<longrightarrow> q \<notin> \<int>"
      using res compute_result_not_integral_float by blast
    ultimately show ?thesis by (rule conjI)
  qed
  have ten: "evaluate rt variables [''10'', ''/'', ''2''] = Inr (PyInt 5)"
    by (simp only: evaluate_def transform_three_tokens compute_ten_by_two sum.case)
  have one: "evaluate rt variables [''1'', ''/'', ''2''] = Inr (PyFloat (Fin (1 / 2)))"
    by (simp only: evaluate_def transform_three_tokens compute_one_by_two sum.case)
  from general ten one show ?thesis by blast
qed

theorem integral_result_is_int_witness:
  "compute_postfix_expresion raising_runtime [Num (PyInt 10), Num (PyInt 2), Str ''/'']
     = Inr (PyInt 5)
   \<and> (\<exists>topmost rest.
        compute_loop raising_runtime [] [Num (PyInt 10), Num (PyInt 2), Str ''/'']
          = Inr (topmost # rest)
        \<and> (case exact_value topmost of
             Some q \<Rightarrow> if q \<in> \<int> then PyInt 5 = PyInt \<lfloor>q\<rfloor> else PyInt 5 = topmost
           | None \<Rightarrow> PyInt 5 = topmost))"
proof -
  have a: "compute_postfix_expresion raising_runtime
      [Num (PyInt 10), Num (PyInt 2), Str ''/''] = Inr (PyInt 5)"
    by (rule compute_ten_by_two)
  from a integral_result_is_int [where rt = raising_runtime and v = "PyInt 5"
      and postfix = "[Num (PyInt 10), Num (PyInt 2), Str ''/'']"]
  show ?thesis by blast
qed

subsection \<open>The scan of the tokens\<close>

lemma transform_loop_append:
  "transform_loop variables st (xs @ ys) =
     (case transform_loop variables st xs of
        Inl e \<Rightarrow> Inl e
      | Inr st' \<Rightarrow> transform_loop variables st' ys)"
  by (induction xs arbitrary: st) (auto split: sum.splits)

lemma digits_not_operator:
  assumes "set token \<subseteq> set digits"
  shows "\<not> in_unary_operators token" and "\<not> in_binary_operators token"
    and "token \<noteq> ''(''" and "token \<noteq> '')''"
  using assms by (auto simp add: digits_def in_unary_operators_def in_binary_operators_def)

lemma unary_operators_simps:
  "unary_operators ''-'' = Some operator_neg"
  "unary_operators ''+'' = Some operator_pos"
  by (simp_all add: unary_operators_def)

lemma transform_token_unary:
  "\<not> next_operator_is_binary st \<Longrightarrow> in_unary_operators token \<Longrightarrow>
   transform_token variables st token
     = Inr (st\<lparr>unary_operators_stack := token # unary_operators_stack st\<rparr>)"
  by (simp add: transform_token_def)

lemma transform_token_digits:
  "\<not> next_operator_is_binary st \<Longrightarrow> set token \<subseteq> set digits \<Longrightarrow>
   transform_token variables st token
     = (case py_int_of_str token of Inl e \<Rightarrow> Inl e | Inr n \<Rightarrow> emit_operand st (PyInt n))"
  by (simp add: transform_token_def digits_not_operator)

lemma transform_token_open_paren:
  "\<not> next_operator_is_binary st \<Longrightarrow>
   transform_token variables st ''(''
     = (if unary_operators_stack st \<noteq> [] then Inl InvalidExpression
        else Inr (st\<lparr>binary_operators_stack := ''('' # binary_operators_stack st\<rparr>))"
  by (simp add: transform_token_def in_unary_operators_def digits_def ascii_letters_def)

lemma transform_loop_unary:
  "\<not> next_operator_is_binary st \<Longrightarrow> \<forall>u\<in>set us. in_unary_operators u \<Longrightarrow>
   transform_loop variables st us
     = Inr (st\<lparr>unary_operators_stack := rev us @ unary_operators_stack st\<rparr>)"
proof (induction us arbitrary: st)
  case Nil
  then show ?case by simp
next
  case (Cons u us)
  let ?st = "st\<lparr>unary_operators_stack := u # unary_operators_stack st\<rparr>"
  from Cons.prems have step: "transform_token variables st u = Inr ?st"
    by (simp add: transform_token_unary)
  from Cons.prems have "transform_loop variables ?st us
      = Inr (?st\<lparr>unary_operators_stack := rev us @ unary_operators_stack ?st\<rparr>)"
    by (intro Cons.IH) simp_all
  with step show ?case by simp
qed

lemma apply_unary_operators_int:
  "\<forall>u\<in>set stack. in_unary_operators u \<Longrightarrow>
   apply_unary_operators stack (PyInt n)
     = Inr (PyInt (if even (length (filter (\<lambda>u. u = ''-'') stack)) then n else - n))"
proof (induction stack arbitrary: n)
  case Nil
  then show ?case by simp
next
  case (Cons u stack)
  then have "u = ''-'' \<or> u = ''+''"
    by (simp add: in_unary_operators_def)
  then show ?case
  proof
    assume "u = ''-''"
    with Cons show ?thesis by (simp add: unary_operators_simps)
  next
    assume "u = ''+''"
    with Cons show ?thesis by (simp add: unary_operators_simps operator_pos_def)
  qed
qed

text \<open>
  C6. A token of digits that follows any sequence of prefix \<^verbatim>\<open>-\<close> and \<^verbatim>\<open>+\<close> tokens, in
  a position where an operand is expected and no other unary operator is pending: the
  unary operators are pushed and then applied to the integer, the last pushed first, and
  one operand is appended to the output, the integer of the literal when the number of
  \<^verbatim>\<open>-\<close> is even and its negation when it is odd. Nothing else of the state changes
  but the flag.
\<close>

theorem unary_operators_fold_into_literal:
  assumes "\<forall>u\<in>set us. u = ''-'' \<or> u = ''+''"
    and "set d \<subseteq> set digits"
    and "py_int_of_str d = Inr n"
  shows "(\<not> next_operator_is_binary st \<and> unary_operators_stack st = [] \<longrightarrow>
            transform_loop variables st (us @ [d])
              = Inr (st\<lparr>postfix_expression := postfix_expression st @
                       [Num (PyInt (if even (length (filter (\<lambda>u. u = ''-'') us))
                                    then n else - n))],
                     next_operator_is_binary := True\<rparr>))
         \<and> apply_unary_operators (rev us) (PyInt n)
             = Inr (PyInt (if even (length (filter (\<lambda>u. u = ''-'') us)) then n else - n))
         \<and> transform_infix_to_postfix variables (us @ [d])
             = Inr [Num (PyInt (if even (length (filter (\<lambda>u. u = ''-'') us))
                                then n else - n))]"
proof -
  let ?v = "PyInt (if even (length (filter (\<lambda>u. u = ''-'') us)) then n else - n)"
  from assms(1) have signs: "\<forall>u\<in>set us. in_unary_operators u"
    by (auto simp add: in_unary_operators_def)
  then have "\<forall>u\<in>set (rev us). in_unary_operators u"
    by simp
  from apply_unary_operators_int [OF this, of n]
  have fold: "apply_unary_operators (rev us) (PyInt n) = Inr ?v"
    by (simp flip: rev_filter)
  have scan: "transform_loop variables st (us @ [d])
       = Inr (st\<lparr>postfix_expression := postfix_expression st @ [Num ?v],
                  next_operator_is_binary := True\<rparr>)"
    if "\<not> next_operator_is_binary st" and "unary_operators_stack st = []" for st
  proof -
    let ?st = "st\<lparr>unary_operators_stack := rev us @ unary_operators_stack st\<rparr>"
    from that signs have "transform_loop variables st us = Inr ?st"
      by (simp add: transform_loop_unary)
    moreover from that assms(2,3) fold
    have "transform_token variables ?st d
        = Inr (st\<lparr>postfix_expression := postfix_expression st @ [Num ?v],
                  next_operator_is_binary := True\<rparr>)"
      by (simp add: transform_token_digits emit_operand_def)
    ultimately show ?thesis
      by (simp add: transform_loop_append)
  qed
  have "transform_infix_to_postfix variables (us @ [d]) = Inr [Num ?v]"
    by (simp add: transform_infix_to_postfix_def scan initial_state_def transform_finish_def
        del: transform_loop.simps)
  with scan fold show ?thesis by blast
qed

theorem unary_operators_fold_into_literal_witness:
  "set [''-'', ''+'', ''-'', ''-''] \<subseteq> {''-'', ''+''}
   \<and> set ''42'' \<subseteq> set digits
   \<and> py_int_of_str ''42'' = Inr 42
   \<and> \<not> next_operator_is_binary initial_state
   \<and> unary_operators_stack initial_state = []
   \<and> transform_loop Map.empty initial_state [''-'', ''+'', ''-'', ''-'', ''42'']
       = Inr (initial_state\<lparr>postfix_expression := [Num (PyInt (- 42))],
                            next_operator_is_binary := True\<rparr>)
   \<and> transform_infix_to_postfix Map.empty [''-'', ''+'', ''-'', ''-'', ''42'']
       = Inr [Num (PyInt (- 42))]"
proof -
  have a: "\<forall>u\<in>set [''-'', ''+'', ''-'', ''-'']. u = ''-'' \<or> u = ''+''"
    by simp
  have b: "set ''42'' \<subseteq> set digits"
    by (simp add: digits_def)
  have c: "py_int_of_str ''42'' = Inr 42"
    by (simp add: py_int_of_str_def digit_value_def)
  have d: "\<not> next_operator_is_binary initial_state \<and> unary_operators_stack initial_state = []"
    by (simp add: initial_state_def)
  have e: "set [''-'', ''+'', ''-'', ''-''] \<subseteq> {''-'', ''+''}"
    by simp
  from unary_operators_fold_into_literal [OF a b c, where st = initial_state
      and variables = Map.empty] b c d e
  show ?thesis by (simp add: initial_state_def)
qed

text \<open>
  C8. When the scan has reached a state in which an operand is expected and a unary
  operator is pending, a following \<^verbatim>\<open>(\<close> raises \<^verbatim>\<open>InvalidExpression\<close>, whatever comes
  after it. The tokens \<^verbatim>\<open>- ( 3 + 2 )\<close> are such a sequence.
\<close>

theorem unary_before_parenthesis_raises:
  "(transform_loop variables initial_state before_paren = Inr st
      \<and> \<not> next_operator_is_binary st \<and> unary_operators_stack st \<noteq> [] \<longrightarrow>
      transform_infix_to_postfix variables (before_paren @ ''('' # after_paren)
        = Inl InvalidExpression)
   \<and> transform_infix_to_postfix variables [''-'', ''('', ''3'', ''+'', ''2'', '')'']
       = Inl InvalidExpression"
proof (intro conjI impI)
  assume "transform_loop variables initial_state before_paren = Inr st
      \<and> \<not> next_operator_is_binary st \<and> unary_operators_stack st \<noteq> []"
  then show "transform_infix_to_postfix variables (before_paren @ ''('' # after_paren)
      = Inl InvalidExpression"
    by (simp add: transform_infix_to_postfix_def transform_loop_append
        transform_token_open_paren)
next
  show "transform_infix_to_postfix variables [''-'', ''('', ''3'', ''+'', ''2'', '')'']
      = Inl InvalidExpression"
    by (simp add: transform_infix_to_postfix_def initial_state_def transform_token_unary
        in_unary_operators_def transform_token_open_paren)
qed

theorem unary_before_parenthesis_raises_witness:
  "transform_loop Map.empty initial_state [''2'', ''*'', ''-'']
     = Inr \<lparr>binary_operators_stack = [''*''], unary_operators_stack = [''-''],
            next_operator_is_binary = False, postfix_expression = [Num (PyInt 2)]\<rparr>
   \<and> transform_infix_to_postfix Map.empty
        ([''2'', ''*'', ''-''] @ ''('' # [''3'', '')'']) = Inl InvalidExpression"
proof -
  have a: "transform_loop Map.empty initial_state [''2'', ''*'', ''-'']
     = Inr \<lparr>binary_operators_stack = [''*''], unary_operators_stack = [''-''],
            next_operator_is_binary = False, postfix_expression = [Num (PyInt 2)]\<rparr>"
    by code_simp
  from a unary_before_parenthesis_raises [where variables = Map.empty
      and before_paren = "[''2'', ''*'', ''-'']" and after_paren = "[''3'', '')'']"
      and st = "\<lparr>binary_operators_stack = [''*''], unary_operators_stack = [''-''],
            next_operator_is_binary = False, postfix_expression = [Num (PyInt 2)]\<rparr>"]
  show ?thesis by simp
qed

subsection \<open>The stack after the loop\<close>

text \<open>
  C2. The claim is that the evaluator returns the remaining value when exactly one value
  is on the stack after the loop, and raises \<^verbatim>\<open>InvalidExpression\<close> otherwise, in
  particular when the stack is empty. The code reads \<^verbatim>\<open>stack[-1]\<close> without looking at
  the size of the stack. For tokens that are unary operators only (no token at all, or
  the line \<^verbatim>\<open>-\<close>), the transformer returns the empty postfix sequence, the stack is
  empty after the loop, and \<^verbatim>\<open>stack[-1]\<close> raises \<^verbatim>\<open>IndexError\<close>, which
  \<^verbatim>\<open>process_expression\<close> does not catch. With the operands 1 and 2 and no operator,
  two values remain and 2 is returned.
\<close>

theorem empty_stack_raises_IndexError:
  "((\<forall>u\<in>set us. in_unary_operators u) \<longrightarrow>
      transform_infix_to_postfix variables us = Inr []
      \<and> evaluate rt variables us = Inl IndexError)
   \<and> compute_loop rt [] [] = Inr []
   \<and> compute_postfix_expresion rt [] = Inl IndexError
   \<and> transform_infix_to_postfix variables [''-''] = Inr []
   \<and> process_expression rt variables ''-'' = (variables, Raise IndexError)
   \<and> compute_loop rt [] [Num (PyInt 1), Num (PyInt 2)] = Inr [PyInt 2, PyInt 1]
   \<and> compute_postfix_expresion rt [Num (PyInt 1), Num (PyInt 2)] = Inr (PyInt 2)"
proof -
  have empty: "compute_postfix_expresion rt [] = Inl IndexError"
    by (simp add: compute_postfix_expresion_def compute_result_def)
  have signs: "transform_infix_to_postfix variables us = Inr []
      \<and> evaluate rt variables us = Inl IndexError"
    if "\<forall>u\<in>set us. in_unary_operators u" for us
  proof -
    from that have "transform_loop variables initial_state us
        = Inr (initial_state\<lparr>unary_operators_stack :=
                 rev us @ unary_operators_stack initial_state\<rparr>)"
      by (intro transform_loop_unary) (simp_all add: initial_state_def)
    then have tr: "transform_infix_to_postfix variables us = Inr []"
      by (simp add: transform_infix_to_postfix_def transform_finish_def initial_state_def)
    with empty show ?thesis
      by (simp add: evaluate_def)
  qed
  have minus: "transform_infix_to_postfix variables [''-''] = Inr []"
    "evaluate rt variables [''-''] = Inl IndexError"
    using signs [of "[''-'']"] by (simp_all add: in_unary_operators_def)
  have tok: "split (remove_extra_spaces ''-'') = [''-'']"
    by code_simp
  have line: "process_expression rt variables ''-'' = (variables, Raise IndexError)"
    by (simp add: process_expression_def tok minus)
  have loop0: "compute_loop rt [] [] = Inr []"
    by simp
  have loop2: "compute_loop rt [] [Num (PyInt 1), Num (PyInt 2)] = Inr [PyInt 2, PyInt 1]"
    by simp
  have two: "compute_postfix_expresion rt [Num (PyInt 1), Num (PyInt 2)] = Inr (PyInt 2)"
    by (simp add: compute_postfix_expresion_def compute_result_def)
  from signs empty minus(1) line loop0 loop2 two show ?thesis
    by blast
qed

theorem empty_stack_raises_IndexError_witness:
  "in_unary_operators ''+'' \<and> in_unary_operators ''-''
   \<and> transform_infix_to_postfix Map.empty [''+'', ''-''] = Inr []
   \<and> evaluate raising_runtime Map.empty [''+'', ''-''] = Inl IndexError"
proof -
  have a: "in_unary_operators ''+''" "in_unary_operators ''-''"
    by (simp_all add: in_unary_operators_def)
  then have b: "\<forall>u\<in>set [''+'', ''-'']. in_unary_operators u"
    by simp
  from a b empty_stack_raises_IndexError [where us = "[''+'', ''-'']"
      and variables = Map.empty and rt = raising_runtime]
  show ?thesis by blast
qed

subsection \<open>The operator stack\<close>

lemma precedence_binary_operator:
  "in_binary_operators s \<Longrightarrow> \<exists>p. precedence s = Some p"
  by (auto simp add: in_binary_operators_def precedence_def)

lemma letters_not_operator:
  assumes "set token \<subseteq> set ascii_letters"
  shows "token \<noteq> ''(''" and "token \<noteq> '')''"
  using assms by (auto simp add: ascii_letters_def)

lemma binary_operator_not_paren:
  assumes "in_binary_operators token"
  shows "token \<noteq> ''(''" and "token \<noteq> '')''"
  using assms by (auto simp add: in_binary_operators_def)

lemma unary_operator_not_paren:
  assumes "in_unary_operators token"
  shows "token \<noteq> ''(''" and "token \<noteq> '')''"
  using assms by (auto simp add: in_unary_operators_def)

lemma pop_until_paren_eq:
  "pop_until_paren stack out
     = (dropWhile (\<lambda>s. s \<noteq> ''('') stack, out @ map Str (takeWhile (\<lambda>s. s \<noteq> ''('') stack))"
  by (induction stack arbitrary: out) simp_all

lemma pop_higher_precedence_eq:
  "in_binary_operators token \<Longrightarrow> operators_only stack \<Longrightarrow>
   pop_higher_precedence token stack out
     = Inr (dropWhile (popped_by token) stack, out @ map Str (takeWhile (popped_by token) stack))"
proof (induction stack arbitrary: out)
  case Nil
  then show ?case by simp
next
  case (Cons s stack)
  from Cons.prems(1) obtain p where p: "precedence token = Some p"
    using precedence_binary_operator by blast
  from Cons.prems(2) have rest: "operators_only stack"
    by (simp add: operators_only_def)
  show ?case
  proof (cases "s = ''(''")
    case True
    then show ?thesis by (simp add: popped_by_def)
  next
    case False
    with Cons.prems(2) have "in_binary_operators s"
      by (simp add: operators_only_def)
    then obtain q where q: "precedence s = Some q"
      using precedence_binary_operator by blast
    from False p q Cons.IH [OF Cons.prems(1) rest] show ?thesis
      by (simp add: popped_by_def)
  qed
qed

lemma pop_higher_precedence_suffix:
  "pop_higher_precedence token stack out = Inr (stack', out') \<Longrightarrow>
   \<exists>popped. stack = popped @ stack' \<and> ''('' \<notin> set popped \<and> out' = out @ map Str popped"
proof (induction stack arbitrary: out)
  case Nil
  then show ?case by simp
next
  case (Cons s stack)
  show ?case
  proof (cases "s = ''(''")
    case True
    with Cons.prems have "stack' = s # stack \<and> out' = out"
      by simp
    then show ?thesis by simp
  next
    case False
    note not_paren = this
    show ?thesis
    proof (cases "precedence token")
      case None
      with not_paren Cons.prems show ?thesis by simp
    next
      case (Some p)
      note p = this
      show ?thesis
      proof (cases "precedence s")
        case None
        with not_paren p Cons.prems show ?thesis by simp
      next
        case (Some q)
        show ?thesis
        proof (cases "p \<le> q")
          case True
          with not_paren p Some Cons.prems
          have "pop_higher_precedence token stack (out @ [Str s]) = Inr (stack', out')"
            by simp
          from Cons.IH [OF this] obtain popped where
            "stack = popped @ stack'" "''('' \<notin> set popped"
            "out' = (out @ [Str s]) @ map Str popped"
            by blast
          with not_paren have "s # stack = (s # popped) @ stack'
              \<and> ''('' \<notin> set (s # popped) \<and> out' = out @ map Str (s # popped)"
            by simp
          then show ?thesis by blast
        next
          case False
          with not_paren p Some Cons.prems have "stack' = s # stack \<and> out' = out"
            by simp
          then show ?thesis by simp
        qed
      qed
    qed
  qed
qed

lemma emit_operand_stacks:
  "emit_operand st number = Inr st' \<Longrightarrow>
   binary_operators_stack st' = binary_operators_stack st \<and> unary_operators_stack st' = []"
  by (auto simp add: emit_operand_def split: sum.splits)

text \<open>The branches of \<open>transform_token\<close> that do not raise.\<close>

lemma transform_token_Inr_cases:
  assumes "transform_token variables st token = Inr st'"
  obtains
    (binary) stack out where
      "next_operator_is_binary st" "in_binary_operators token"
      "pop_higher_precedence token (binary_operators_stack st) (postfix_expression st)
         = Inr (stack, out)"
      "st' = st\<lparr>binary_operators_stack := token # stack, postfix_expression := out,
                 next_operator_is_binary := False\<rparr>"
  | (unary) "\<not> next_operator_is_binary st" "in_unary_operators token"
      "st' = st\<lparr>unary_operators_stack := token # unary_operators_stack st\<rparr>"
  | (operand) number where
      "\<not> next_operator_is_binary st" "token \<noteq> ''(''" "token \<noteq> '')''"
      "emit_operand st number = Inr st'"
  | (left) "\<not> next_operator_is_binary st" "token = ''(''" "unary_operators_stack st = []"
      "st' = st\<lparr>binary_operators_stack := ''('' # binary_operators_stack st\<rparr>"
  | (right) paren stack out where
      "next_operator_is_binary st" "token = '')''"
      "pop_until_paren (binary_operators_stack st) (postfix_expression st)
         = (paren # stack, out)"
      "st' = st\<lparr>binary_operators_stack := stack, postfix_expression := out\<rparr>"
proof (cases "next_operator_is_binary st \<and> in_binary_operators token")
  case True
  with assms obtain stack out where
    "pop_higher_precedence token (binary_operators_stack st) (postfix_expression st)
       = Inr (stack, out)"
    "st' = st\<lparr>binary_operators_stack := token # stack, postfix_expression := out,
               next_operator_is_binary := False\<rparr>"
    by (auto simp add: transform_token_def split: sum.splits prod.splits)
  with True show ?thesis by (intro binary) simp_all
next
  case c1: False
  show ?thesis
  proof (cases "in_unary_operators token \<and> \<not> next_operator_is_binary st")
    case True
    with c1 assms
    have "st' = st\<lparr>unary_operators_stack := token # unary_operators_stack st\<rparr>"
      by (simp add: transform_token_unary)
    with True show ?thesis by (intro unary) simp_all
  next
    case c2: False
    show ?thesis
    proof (cases "set token \<subseteq> set digits \<and> \<not> next_operator_is_binary st")
      case True
      with assms obtain n where "emit_operand st (PyInt n) = Inr st'"
        by (auto simp add: transform_token_digits split: sum.splits)
      with True show ?thesis
        by (intro operand [of "PyInt n"]) (simp_all add: digits_not_operator)
    next
      case c3: False
      show ?thesis
      proof (cases "set token \<subseteq> set ascii_letters \<and> \<not> next_operator_is_binary st")
        case True
        with c1 c2 c3 assms obtain number where "emit_operand st number = Inr st'"
          by (auto simp add: transform_token_def split: option.splits)
        with True show ?thesis
          by (intro operand [of number]) (simp_all add: letters_not_operator)
      next
        case c4: False
        show ?thesis
        proof (cases "token = ''('' \<and> \<not> next_operator_is_binary st")
          case True
          with assms have "unary_operators_stack st = []"
            "st' = st\<lparr>binary_operators_stack := ''('' # binary_operators_stack st\<rparr>"
            by (simp_all add: transform_token_open_paren split: if_splits)
          with True show ?thesis by (intro left) simp_all
        next
          case c5: False
          show ?thesis
          proof (cases "token = '')'' \<and> next_operator_is_binary st")
            case True
            with c1 c2 c3 c4 c5 assms obtain paren stack out where
              "pop_until_paren (binary_operators_stack st) (postfix_expression st)
                 = (paren # stack, out)"
              "st' = st\<lparr>binary_operators_stack := stack, postfix_expression := out\<rparr>"
              by (auto simp add: transform_token_def split: prod.splits list.splits)
            with True show ?thesis by (intro right) simp_all
          next
            case c6: False
            with c1 c2 c3 c4 c5 assms have False
              by (simp add: transform_token_def split: if_splits)
            then show ?thesis ..
          qed
        qed
      qed
    qed
  qed
qed

lemma well_formed_initial_state: "well_formed initial_state"
  by (simp add: well_formed_def initial_state_def operators_only_def signs_only_def)

lemma operators_only_suffix:
  "operators_only (popped @ stack) \<Longrightarrow> operators_only stack"
  by (simp add: operators_only_def)

lemma well_formed_transform_token:
  assumes "well_formed st" and "transform_token variables st token = Inr st'"
  shows "well_formed st'"
proof -
  from assms(1) have ops: "operators_only (binary_operators_stack st)"
    and signs: "signs_only (unary_operators_stack st)"
    by (simp_all add: well_formed_def)
  from assms(2) show ?thesis
  proof (cases rule: transform_token_Inr_cases)
    case (binary stack out)
    from pop_higher_precedence_suffix [OF binary(3)] obtain popped where
      "binary_operators_stack st = popped @ stack"
      by blast
    with ops have "operators_only stack"
      using operators_only_suffix by simp
    with binary(2,4) signs show ?thesis
      by (simp add: well_formed_def operators_only_def)
  next
    case unary
    with ops signs show ?thesis
      by (simp add: well_formed_def signs_only_def)
  next
    case (operand number)
    from emit_operand_stacks [OF operand(4)] ops show ?thesis
      by (simp add: well_formed_def signs_only_def)
  next
    case left
    with ops signs show ?thesis
      by (simp add: well_formed_def operators_only_def)
  next
    case (right paren stack out)
    from right(3)
    have "paren # stack = dropWhile (\<lambda>s. s \<noteq> ''('') (binary_operators_stack st)"
      by (simp add: pop_until_paren_eq)
    then have "binary_operators_stack st
        = takeWhile (\<lambda>s. s \<noteq> ''('') (binary_operators_stack st) @ paren # stack"
      by simp
    then have "operators_only (paren # stack)"
      using ops operators_only_suffix by metis
    with right(4) signs show ?thesis
      by (simp add: well_formed_def operators_only_def)
  qed
qed

lemma well_formed_transform_loop:
  "well_formed st \<Longrightarrow> transform_loop variables st tokens = Inr st' \<Longrightarrow> well_formed st'"
proof (induction tokens arbitrary: st)
  case Nil
  then show ?case by simp
next
  case (Cons token tokens)
  from Cons.prems(2) obtain st1 where
    step: "transform_token variables st token = Inr st1"
    and rest: "transform_loop variables st1 tokens = Inr st'"
    by (auto split: sum.splits)
  from well_formed_transform_token [OF Cons.prems(1) step] rest show ?case
    by (rule Cons.IH)
qed

subsection \<open>Associativity\<close>

lemma transform_token_binary:
  assumes "next_operator_is_binary st" and "in_binary_operators token"
    and "operators_only (binary_operators_stack st)"
  shows "transform_token variables st token
     = Inr (st\<lparr>binary_operators_stack :=
                  token # dropWhile (popped_by token) (binary_operators_stack st),
                postfix_expression := postfix_expression st @
                  map Str (takeWhile (popped_by token) (binary_operators_stack st)),
                next_operator_is_binary := False\<rparr>)"
  using assms by (simp add: transform_token_def pop_higher_precedence_eq)

lemma popped_by_same_precedence:
  assumes "in_binary_operators s" and "in_binary_operators token"
    and "precedence token = precedence s"
  shows "popped_by token s"
proof -
  from assms(1) obtain q where q: "precedence s = Some q"
    using precedence_binary_operator by blast
  from assms(1) have "s \<noteq> ''(''"
    by (rule binary_operator_not_paren)
  with q assms(3) show ?thesis
    by (simp add: popped_by_def)
qed

lemma compute_loop_operator:
  "binary_operators rt s = Some f \<Longrightarrow>
   compute_loop rt (b # a # rest) (Str s # tokens)
     = (case f a b of Inl e \<Rightarrow> Inl e | Inr v \<Rightarrow> compute_loop rt (v # rest) tokens)"
  by (simp split: sum.splits)

lemma ascending_suffix:
  "ascending (xs @ ys) \<Longrightarrow> ascending ys"
proof (induction xs)
  case Nil
  then show ?case by simp
next
  case (Cons x xs)
  then show ?case
    by (cases "xs @ ys") simp_all
qed

lemma ascending_Cons:
  "ascending stack \<Longrightarrow>
   (case stack of [] \<Rightarrow> True | u # _ \<Rightarrow> s = ''('' \<or> u = ''('' \<or> \<not> popped_by s u) \<Longrightarrow>
   ascending (s # stack)"
  by (cases stack) simp_all

lemma not_popped_by_trans:
  assumes "in_binary_operators token" "in_binary_operators u" "in_binary_operators t"
    and "\<not> popped_by token u" "\<not> popped_by u t"
  shows "\<not> popped_by token t"
proof -
  from assms(1) obtain p where p: "precedence token = Some p"
    using precedence_binary_operator by blast
  from assms(2) obtain q where q: "precedence u = Some q"
    using precedence_binary_operator by blast
  from assms(3) obtain r where r: "precedence t = Some r"
    using precedence_binary_operator by blast
  from assms(2) have nu: "u \<noteq> ''(''"
    by (rule binary_operator_not_paren)
  from assms(3) have nt: "t \<noteq> ''(''"
    by (rule binary_operator_not_paren)
  from assms(4) p q nu have "\<not> p \<le> q"
    by (simp add: popped_by_def)
  moreover from assms(5) q r nt have "\<not> q \<le> r"
    by (simp add: popped_by_def)
  ultimately have "\<not> p \<le> r"
    by simp
  with p r show ?thesis
    by (simp add: popped_by_def)
qed

lemma ascending_not_popped:
  "operators_only (u # xs) \<Longrightarrow> ascending (u # xs) \<Longrightarrow> in_binary_operators token \<Longrightarrow>
   u = ''('' \<or> \<not> popped_by token u \<Longrightarrow>
   \<forall>v\<in>set (takeWhile (\<lambda>s. s \<noteq> ''('') (u # xs)). \<not> popped_by token v"
proof (induction xs arbitrary: u)
  case Nil
  then show ?case by auto
next
  case (Cons t xs)
  show ?case
  proof (cases "u = ''(''")
    case True
    then show ?thesis by simp
  next
    case False
    with Cons.prems(4) have u: "\<not> popped_by token u"
      by simp
    from False Cons.prems(1) have bu: "in_binary_operators u"
      by (simp add: operators_only_def)
    from Cons.prems(1) have ops: "operators_only (t # xs)"
      by (simp add: operators_only_def)
    from Cons.prems(2) have asc: "ascending (t # xs)"
      by simp
    have "t = ''('' \<or> \<not> popped_by token t"
    proof (cases "t = ''(''")
      case True
      then show ?thesis by simp
    next
      case nt: False
      with ops have bt: "in_binary_operators t"
        by (simp add: operators_only_def)
      from Cons.prems(2) False nt have "\<not> popped_by u t"
        by simp
      with Cons.prems(3) bu bt u have "\<not> popped_by token t"
        by (rule not_popped_by_trans)
      then show ?thesis by simp
    qed
    from Cons.IH [OF ops asc Cons.prems(3) this] False u show ?thesis
      by simp
  qed
qed

lemma ascending_dropWhile:
  assumes "ascending stack"
  shows "ascending (dropWhile P stack)"
proof -
  from assms have "ascending (takeWhile P stack @ dropWhile P stack)"
    by simp
  then show ?thesis by (rule ascending_suffix)
qed

lemma ascending_push:
  assumes "ascending stack"
  shows "ascending (token # dropWhile (popped_by token) stack)"
proof (cases "dropWhile (popped_by token) stack")
  case Nil
  show ?thesis unfolding Nil by simp
next
  case (Cons u us)
  then have "\<not> popped_by token u"
    using hd_dropWhile [of "popped_by token" stack] by fastforce
  moreover from assms have "ascending (dropWhile (popped_by token) stack)"
    by (rule ascending_dropWhile)
  then have "ascending (u # us)"
    unfolding Cons .
  ultimately show ?thesis
    unfolding Cons by simp
qed

lemma ascending_transform_token:
  assumes "well_formed st" and "ascending (binary_operators_stack st)"
    and "transform_token variables st token = Inr st'"
  shows "ascending (binary_operators_stack st')"
  using assms(3)
proof (cases rule: transform_token_Inr_cases)
  case (binary stack out)
  from assms(1) have "operators_only (binary_operators_stack st)"
    by (simp add: well_formed_def)
  with binary(2,3) have "stack = dropWhile (popped_by token) (binary_operators_stack st)"
    by (simp add: pop_higher_precedence_eq)
  with binary(4) assms(2) show ?thesis
    by (simp add: ascending_push)
next
  case unary
  with assms(2) show ?thesis by simp
next
  case (operand number)
  from emit_operand_stacks [OF operand(4)] assms(2) show ?thesis
    by simp
next
  case left
  with assms(2) show ?thesis
    by (simp add: ascending_Cons split: list.splits)
next
  case (right paren stack out)
  from right(3)
  have d: "dropWhile (\<lambda>s. s \<noteq> ''('') (binary_operators_stack st) = paren # stack"
    by (simp add: pop_until_paren_eq)
  from assms(2) have "ascending (dropWhile (\<lambda>s. s \<noteq> ''('') (binary_operators_stack st))"
    by (rule ascending_dropWhile)
  then have "ascending ([paren] @ stack)"
    unfolding d by simp
  then have "ascending stack"
    by (rule ascending_suffix)
  with right(4) show ?thesis by simp
qed

lemma ascending_transform_loop:
  "well_formed st \<Longrightarrow> ascending (binary_operators_stack st) \<Longrightarrow>
   transform_loop variables st tokens = Inr st' \<Longrightarrow> ascending (binary_operators_stack st')"
proof (induction tokens arbitrary: st)
  case Nil
  then show ?case by simp
next
  case (Cons token tokens)
  from Cons.prems(3) obtain st1 where
    step: "transform_token variables st token = Inr st1"
    and rest: "transform_loop variables st1 tokens = Inr st'"
    by (auto split: sum.splits)
  from Cons.prems(1) step have "well_formed st1"
    by (rule well_formed_transform_token)
  moreover from Cons.prems(1,2) step have "ascending (binary_operators_stack st1)"
    by (rule ascending_transform_token)
  ultimately show ?case
    using rest by (rule Cons.IH)
qed

lemma no_higher_precedence_left:
  assumes "transform_loop variables initial_state scanned = Inr st"
    and "in_binary_operators token"
  shows "\<forall>s\<in>set (takeWhile (\<lambda>s. s \<noteq> ''('')
            (dropWhile (popped_by token) (binary_operators_stack st))). \<not> popped_by token s"
proof -
  from assms(1) well_formed_transform_loop [OF well_formed_initial_state]
  have wf: "well_formed st" by blast
  have "ascending (binary_operators_stack initial_state)"
    by (simp add: initial_state_def)
  with well_formed_initial_state have asc: "ascending (binary_operators_stack st)"
    using assms(1) by (rule ascending_transform_loop)
  let ?rest = "dropWhile (popped_by token) (binary_operators_stack st)"
  from asc have rest: "ascending ?rest"
    by (rule ascending_dropWhile)
  from wf have ops: "operators_only ?rest"
    by (auto simp add: well_formed_def operators_only_def dest: set_dropWhileD)
  show ?thesis
  proof (cases ?rest)
    case Nil
    show ?thesis unfolding Nil by simp
  next
    case (Cons u us)
    then have "\<not> popped_by token u"
      using hd_dropWhile [of "popped_by token" "binary_operators_stack st"] by fastforce
    with rest ops assms(2) show ?thesis
      unfolding Cons using ascending_not_popped [of u us token] by blast
  qed
qed

text \<open>
  C4. When a binary operator arrives in the scan (after an operand or a closing
  parenthesis), the operators on top of the stack that are not \<^verbatim>\<open>(\<close> and whose
  precedence is greater than or equal to its own are moved to the output, and then the
  operator is pushed; no operator of such a precedence is left above the nearest
  \<^verbatim>\<open>(\<close>. So two operators of the same precedence group to the left:
  \<^verbatim>\<open>a op1 b op2 c\<close> becomes \<^verbatim>\<open>a b op1 c op2\<close> and is evaluated as
  \<^verbatim>\<open>(a op1 b) op2 c\<close>, also for \<^verbatim>\<open>^\<close>. The tokens \<^verbatim>\<open>2 ^ 3 ^ 2\<close> give 64.
\<close>

theorem binary_operators_left_associative:
  "(transform_loop variables initial_state scanned = Inr st
      \<and> next_operator_is_binary st \<and> in_binary_operators token \<longrightarrow>
      transform_token variables st token
        = Inr (st\<lparr>binary_operators_stack :=
                     token # dropWhile (popped_by token) (binary_operators_stack st),
                   postfix_expression := postfix_expression st @
                     map Str (takeWhile (popped_by token) (binary_operators_stack st)),
                   next_operator_is_binary := False\<rparr>)
      \<and> (\<forall>s\<in>set (takeWhile (\<lambda>s. s \<noteq> ''('')
                    (dropWhile (popped_by token) (binary_operators_stack st))).
             \<not> popped_by token s))
   \<and> (in_binary_operators op1 \<and> in_binary_operators op2
        \<and> precedence op1 = precedence op2
        \<and> set a \<subseteq> set digits \<and> py_int_of_str a = Inr x
        \<and> set b \<subseteq> set digits \<and> py_int_of_str b = Inr y
        \<and> set c \<subseteq> set digits \<and> py_int_of_str c = Inr z
        \<and> binary_operators rt op1 = Some f1 \<and> binary_operators rt op2 = Some f2 \<longrightarrow>
        transform_infix_to_postfix variables [a, op1, b, op2, c]
          = Inr [Num (PyInt x), Num (PyInt y), Str op1, Num (PyInt z), Str op2]
        \<and> evaluate rt variables [a, op1, b, op2, c]
          = (case f1 (PyInt x) (PyInt y) of
               Inl e \<Rightarrow> Inl e
             | Inr v \<Rightarrow> (case f2 v (PyInt z) of
                           Inl e \<Rightarrow> Inl e
                         | Inr w \<Rightarrow> compute_result [w])))
   \<and> transform_infix_to_postfix variables [''2'', ''^'', ''3'', ''^'', ''2'']
       = Inr [Num (PyInt 2), Num (PyInt 3), Str ''^'', Num (PyInt 2), Str ''^'']
   \<and> evaluate rt variables [''2'', ''^'', ''3'', ''^'', ''2''] = Inr (PyInt 64)"
proof -
  have step: "transform_token variables st token
        = Inr (st\<lparr>binary_operators_stack :=
                     token # dropWhile (popped_by token) (binary_operators_stack st),
                   postfix_expression := postfix_expression st @
                     map Str (takeWhile (popped_by token) (binary_operators_stack st)),
                   next_operator_is_binary := False\<rparr>)"
    if "transform_loop variables initial_state scanned = Inr st
      \<and> next_operator_is_binary st \<and> in_binary_operators token"
  proof -
    from that well_formed_transform_loop [OF well_formed_initial_state]
    have "well_formed st" by blast
    with that show ?thesis
      by (simp add: transform_token_binary well_formed_def)
  qed
  have left: "\<forall>s\<in>set (takeWhile (\<lambda>s. s \<noteq> ''('')
                    (dropWhile (popped_by token) (binary_operators_stack st))).
             \<not> popped_by token s"
    if "transform_loop variables initial_state scanned = Inr st
      \<and> next_operator_is_binary st \<and> in_binary_operators token"
    using that no_higher_precedence_left [of variables scanned st token] by blast
  have postfix: "transform_infix_to_postfix variables [a, op1, b, op2, c]
          = Inr [Num (PyInt x), Num (PyInt y), Str op1, Num (PyInt z), Str op2]"
    if "in_binary_operators op1" "in_binary_operators op2" "precedence op1 = precedence op2"
      "set a \<subseteq> set digits" "py_int_of_str a = Inr x"
      "set b \<subseteq> set digits" "py_int_of_str b = Inr y"
      "set c \<subseteq> set digits" "py_int_of_str c = Inr z"
    for a b c op1 op2 x y z
  proof -
    from that(1,2,3) have pop: "popped_by op2 op1"
      by (simp add: popped_by_same_precedence)
    from that(1) have np: "op1 \<noteq> ''(''"
      by (rule binary_operator_not_paren)
    from that(2) have np2: "op2 \<noteq> ''(''"
      by (rule binary_operator_not_paren)
    from that pop np np2 show ?thesis
      by (simp add: transform_infix_to_postfix_def initial_state_def transform_token_digits
          emit_operand_def transform_token_binary operators_only_def transform_finish_def)
  qed
  have assoc: "transform_infix_to_postfix variables [a, op1, b, op2, c]
          = Inr [Num (PyInt x), Num (PyInt y), Str op1, Num (PyInt z), Str op2]
        \<and> evaluate rt variables [a, op1, b, op2, c]
          = (case f1 (PyInt x) (PyInt y) of
               Inl e \<Rightarrow> Inl e
             | Inr v \<Rightarrow> (case f2 v (PyInt z) of
                           Inl e \<Rightarrow> Inl e
                         | Inr w \<Rightarrow> compute_result [w]))"
    if h: "in_binary_operators op1 \<and> in_binary_operators op2
        \<and> precedence op1 = precedence op2
        \<and> set a \<subseteq> set digits \<and> py_int_of_str a = Inr x
        \<and> set b \<subseteq> set digits \<and> py_int_of_str b = Inr y
        \<and> set c \<subseteq> set digits \<and> py_int_of_str c = Inr z
        \<and> binary_operators rt op1 = Some f1 \<and> binary_operators rt op2 = Some f2"
  proof -
    from h have p: "transform_infix_to_postfix variables [a, op1, b, op2, c]
          = Inr [Num (PyInt x), Num (PyInt y), Str op1, Num (PyInt z), Str op2]"
      by (intro postfix) simp_all
    from h have f: "binary_operators rt op1 = Some f1" "binary_operators rt op2 = Some f2"
      by simp_all
    have "compute_postfix_expresion rt
        [Num (PyInt x), Num (PyInt y), Str op1, Num (PyInt z), Str op2]
          = (case f1 (PyInt x) (PyInt y) of
               Inl e \<Rightarrow> Inl e
             | Inr v \<Rightarrow> (case f2 v (PyInt z) of
                           Inl e \<Rightarrow> Inl e
                         | Inr w \<Rightarrow> compute_result [w]))"
      by (simp add: compute_postfix_expresion_def f split: sum.splits)
    with p show ?thesis
      by (simp add: evaluate_def)
  qed
  have d: "set ''2'' \<subseteq> set digits" "set ''3'' \<subseteq> set digits"
    "py_int_of_str ''2'' = Inr 2" "py_int_of_str ''3'' = Inr 3"
    by (simp_all add: digits_def py_int_of_str_def digit_value_def)
  have pw: "in_binary_operators ''^''"
    by (simp add: in_binary_operators_def)
  have tr: "transform_infix_to_postfix variables [''2'', ''^'', ''3'', ''^'', ''2'']
       = Inr [Num (PyInt 2), Num (PyInt 3), Str ''^'', Num (PyInt 2), Str ''^'']"
    using d pw by (intro postfix) simp_all
  have "compute_postfix_expresion rt
      [Num (PyInt 2), Num (PyInt 3), Str ''^'', Num (PyInt 2), Str ''^''] = Inr (PyInt 64)"
    by (simp add: compute_postfix_expresion_def binary_operators_simps operator_pow_def
        compute_result_def)
  with tr have ev: "evaluate rt variables [''2'', ''^'', ''3'', ''^'', ''2''] = Inr (PyInt 64)"
    by (simp add: evaluate_def)
  from step left assoc tr ev show ?thesis by blast
qed

theorem binary_operators_left_associative_witness:
  "transform_loop Map.empty initial_state [''2'', ''*'', ''3'']
     = Inr \<lparr>binary_operators_stack = [''*''], unary_operators_stack = [],
            next_operator_is_binary = True,
            postfix_expression = [Num (PyInt 2), Num (PyInt 3)]\<rparr>
   \<and> in_binary_operators ''+''
   \<and> transform_token Map.empty
        \<lparr>binary_operators_stack = [''*''], unary_operators_stack = [],
         next_operator_is_binary = True,
         postfix_expression = [Num (PyInt 2), Num (PyInt 3)]\<rparr> ''+''
       = Inr \<lparr>binary_operators_stack = [''+''], unary_operators_stack = [],
              next_operator_is_binary = False,
              postfix_expression = [Num (PyInt 2), Num (PyInt 3), Str ''*'']\<rparr>
   \<and> in_binary_operators ''-''
   \<and> precedence ''-'' = precedence ''+''
   \<and> set ''7'' \<subseteq> set digits \<and> py_int_of_str ''7'' = Inr 7
   \<and> set ''2'' \<subseteq> set digits \<and> py_int_of_str ''2'' = Inr 2
   \<and> set ''3'' \<subseteq> set digits \<and> py_int_of_str ''3'' = Inr 3
   \<and> binary_operators raising_runtime ''-'' = Some (operator_sub raising_runtime)
   \<and> binary_operators raising_runtime ''+'' = Some (operator_add raising_runtime)
   \<and> transform_infix_to_postfix Map.empty [''7'', ''-'', ''2'', ''+'', ''3'']
       = Inr [Num (PyInt 7), Num (PyInt 2), Str ''-'', Num (PyInt 3), Str ''+'']
   \<and> evaluate raising_runtime Map.empty [''7'', ''-'', ''2'', ''+'', ''3''] = Inr (PyInt 8)"
proof -
  let ?st = "\<lparr>binary_operators_stack = [''*''], unary_operators_stack = [],
            next_operator_is_binary = True,
            postfix_expression = [Num (PyInt 2), Num (PyInt 3)]\<rparr>"
  have a: "transform_loop Map.empty initial_state [''2'', ''*'', ''3''] = Inr ?st"
    by code_simp
  have b: "in_binary_operators ''+''" "in_binary_operators ''-''"
    by (simp_all add: in_binary_operators_def)
  have c: "precedence ''-'' = precedence ''+''"
    by (simp add: precedence_def)
  have d: "set ''7'' \<subseteq> set digits" "py_int_of_str ''7'' = Inr 7"
    "set ''2'' \<subseteq> set digits" "py_int_of_str ''2'' = Inr 2"
    "set ''3'' \<subseteq> set digits" "py_int_of_str ''3'' = Inr 3"
    by (simp_all add: digits_def py_int_of_str_def digit_value_def)
  have e: "binary_operators raising_runtime ''-'' = Some (operator_sub raising_runtime)"
    "binary_operators raising_runtime ''+'' = Some (operator_add raising_runtime)"
    by (simp_all add: binary_operators_simps)
  have p: "popped_by ''+'' ''*''"
    by (simp add: popped_by_def precedence_def)
  note inst = binary_operators_left_associative [where variables = Map.empty
      and scanned = "[''2'', ''*'', ''3'']" and st = ?st and token = "''+''"
      and rt = raising_runtime and ?op1.0 = "''-''" and ?op2.0 = "''+''"
      and a = "''7''" and b = "''2''" and c = "''3''" and x = 7 and y = 2 and z = 3
      and ?f1.0 = "operator_sub raising_runtime" and ?f2.0 = "operator_add raising_runtime"]
  from inst a b have step: "transform_token Map.empty ?st ''+''
       = Inr \<lparr>binary_operators_stack = [''+''], unary_operators_stack = [],
              next_operator_is_binary = False,
              postfix_expression = [Num (PyInt 2), Num (PyInt 3), Str ''*'']\<rparr>"
    by (simp add: p)
  from inst b c d e
  have tr: "transform_infix_to_postfix Map.empty [''7'', ''-'', ''2'', ''+'', ''3'']
       = Inr [Num (PyInt 7), Num (PyInt 2), Str ''-'', Num (PyInt 3), Str ''+'']"
    by blast
  from inst b c d e
  have "evaluate raising_runtime Map.empty [''7'', ''-'', ''2'', ''+'', ''3'']
      = (case operator_sub raising_runtime (PyInt 7) (PyInt 2) of
               Inl e \<Rightarrow> Inl e
             | Inr v \<Rightarrow> (case operator_add raising_runtime v (PyInt 3) of
                           Inl e \<Rightarrow> Inl e
                         | Inr w \<Rightarrow> compute_result [w]))"
    by blast
  then have ev: "evaluate raising_runtime Map.empty [''7'', ''-'', ''2'', ''+'', ''3'']
      = Inr (PyInt 8)"
    by (simp add: operator_sub_def operator_add_def compute_result_def)
  from a b c d e step tr ev show ?thesis
    by (intro conjI)
qed

subsection \<open>Parentheses\<close>

lemma open_parens_append:
  "open_parens (xs @ ys) = open_parens xs + open_parens ys"
  by (simp add: open_parens_def)

lemma open_parens_none:
  "''('' \<notin> set xs \<Longrightarrow> open_parens xs = 0"
  by (induction xs) (auto simp add: open_parens_def)

lemma pop_until_paren_Cons:
  assumes "pop_until_paren stack out = (paren # rest, out')"
  shows "paren = ''(''" and "open_parens stack = Suc (open_parens rest)"
proof -
  from assms have d: "dropWhile (\<lambda>s. s \<noteq> ''('') stack = paren # rest"
    by (simp add: pop_until_paren_eq)
  then show p: "paren = ''(''"
    using hd_dropWhile [of "\<lambda>s. s \<noteq> ''(''" stack] by fastforce
  have "stack = takeWhile (\<lambda>s. s \<noteq> ''('') stack @ dropWhile (\<lambda>s. s \<noteq> ''('') stack"
    by simp
  with d have s: "stack = takeWhile (\<lambda>s. s \<noteq> ''('') stack @ paren # rest"
    by simp
  have "''('' \<notin> set (takeWhile (\<lambda>s. s \<noteq> ''('') stack)"
    by (auto dest: set_takeWhileD)
  then have "open_parens (takeWhile (\<lambda>s. s \<noteq> ''('') stack) = 0"
    by (rule open_parens_none)
  then have "open_parens (takeWhile (\<lambda>s. s \<noteq> ''('') stack @ paren # rest)
      = Suc (open_parens rest)"
    using p by (simp add: open_parens_append) (simp add: open_parens_def)
  with s show "open_parens stack = Suc (open_parens rest)"
    by simp
qed

lemma pop_until_paren_Nil:
  "pop_until_paren stack out = ([], out') \<Longrightarrow> ''('' \<notin> set stack"
  by (auto simp add: pop_until_paren_eq dropWhile_eq_Nil_conv)

lemma paren_depth_transform_token:
  assumes "transform_token variables st token = Inr st'"
  shows "paren_depth (open_parens (binary_operators_stack st)) (token # tokens)
     = paren_depth (open_parens (binary_operators_stack st')) tokens"
  using assms
proof (cases rule: transform_token_Inr_cases)
  case (binary stack out)
  from pop_higher_precedence_suffix [OF binary(3)] obtain popped where
    "binary_operators_stack st = popped @ stack" "''('' \<notin> set popped"
    by blast
  then have "open_parens (binary_operators_stack st) = open_parens stack"
    by (simp add: open_parens_append open_parens_none)
  moreover from binary(2) have "token \<noteq> ''(''" "token \<noteq> '')''"
    by (rule binary_operator_not_paren)+
  ultimately show ?thesis
    using binary(4) by (simp add: open_parens_def)
next
  case unary
  from unary(2) have "token \<noteq> ''(''" "token \<noteq> '')''"
    by (rule unary_operator_not_paren)+
  with unary(3) show ?thesis by simp
next
  case (operand number)
  from emit_operand_stacks [OF operand(4)] operand(2,3) show ?thesis
    by simp
next
  case left
  then show ?thesis by (simp add: open_parens_def)
next
  case (right paren stack out)
  from pop_until_paren_Cons(2) [OF right(3)] right(2,4) show ?thesis
    by simp
qed

lemma paren_depth_transform_loop:
  "transform_loop variables st tokens = Inr st' \<Longrightarrow>
   paren_depth (open_parens (binary_operators_stack st)) tokens
     = Some (open_parens (binary_operators_stack st'))"
proof (induction tokens arbitrary: st)
  case Nil
  then show ?case by simp
next
  case (Cons token tokens)
  from Cons.prems obtain st1 where
    step: "transform_token variables st token = Inr st1"
    and rest: "transform_loop variables st1 tokens = Inr st'"
    by (auto split: sum.splits)
  from paren_depth_transform_token [OF step, of tokens] Cons.IH [OF rest]
  show ?case by (simp del: paren_depth.simps)
qed

lemma transform_finish_Inr:
  "transform_finish st = Inr out \<Longrightarrow> open_parens (binary_operators_stack st) = 0"
  by (auto simp add: transform_finish_def split: prod.splits list.splits
      dest!: pop_until_paren_Nil intro: open_parens_none)

lemma transform_finish_Inl:
  "transform_finish st = Inl e \<Longrightarrow> e = InvalidExpression"
  by (auto simp add: transform_finish_def split: prod.splits list.splits)

lemma transform_Inr_balanced:
  assumes "transform_infix_to_postfix variables tokens = Inr postfix"
  shows "balanced tokens"
proof -
  from assms obtain st where
    loop: "transform_loop variables initial_state tokens = Inr st"
    and fin: "transform_finish st = Inr postfix"
    by (auto simp add: transform_infix_to_postfix_def split: sum.splits)
  from paren_depth_transform_loop [OF loop] transform_finish_Inr [OF fin]
  show ?thesis
    by (simp add: balanced_def initial_state_def open_parens_def)
qed

lemma apply_unary_operators_signs:
  "signs_only stack \<Longrightarrow> \<exists>v. apply_unary_operators stack number = Inr v"
proof (induction stack arbitrary: number)
  case Nil
  then show ?case by simp
next
  case (Cons u stack)
  then have "u = ''-'' \<or> u = ''+''" and "signs_only stack"
    by (simp_all add: signs_only_def in_unary_operators_def)
  with Cons.IH show ?case
    by (auto simp add: unary_operators_simps)
qed

lemma emit_operand_signs:
  "signs_only (unary_operators_stack st) \<Longrightarrow> \<exists>st'. emit_operand st number = Inr st'"
  using apply_unary_operators_signs [of "unary_operators_stack st" number]
  by (auto simp add: emit_operand_def)

lemma transform_token_Inl:
  assumes wf: "well_formed st" and plain: "plain_token variables token"
    and err: "transform_token variables st token = Inl e"
  shows "e = InvalidExpression"
proof -
  from wf have ops: "operators_only (binary_operators_stack st)"
    and signs: "signs_only (unary_operators_stack st)"
    by (simp_all add: well_formed_def)
  show ?thesis
  proof (cases "next_operator_is_binary st \<and> in_binary_operators token")
    case True
    with ops err show ?thesis
      by (simp add: transform_token_binary)
  next
    case c1: False
    show ?thesis
    proof (cases "in_unary_operators token \<and> \<not> next_operator_is_binary st")
      case True
      with err show ?thesis by (simp add: transform_token_unary)
    next
      case c2: False
      show ?thesis
      proof (cases "set token \<subseteq> set digits \<and> \<not> next_operator_is_binary st")
        case True
        from plain obtain n where "py_int_of_str token = Inr n"
          by (simp add: plain_token_def py_int_of_str_def)
        moreover from emit_operand_signs [OF signs] obtain st' where
          "emit_operand st (PyInt n) = Inr st'"
          by blast
        ultimately show ?thesis
          using True err by (simp add: transform_token_digits)
      next
        case c3: False
        show ?thesis
        proof (cases "set token \<subseteq> set ascii_letters \<and> \<not> next_operator_is_binary st")
          case True
          with plain obtain number where v: "variables token = Some number"
            by (auto simp add: plain_token_def)
          from emit_operand_signs [OF signs] obtain st' where
            "emit_operand st number = Inr st'"
            by blast
          with v True c1 c2 c3 err show ?thesis
            by (simp add: transform_token_def)
        next
          case c4: False
          show ?thesis
          proof (cases "token = ''('' \<and> \<not> next_operator_is_binary st")
            case True
            with err show ?thesis
              by (simp add: transform_token_open_paren split: if_splits)
          next
            case c5: False
            show ?thesis
            proof (cases "token = '')'' \<and> next_operator_is_binary st")
              case True
              with c1 c2 c3 c4 c5 err show ?thesis
                by (auto simp add: transform_token_def split: prod.splits list.splits)
            next
              case c6: False
              from plain have "\<not> (set token \<inter> set ascii_letters \<noteq> {}
                  \<and> set token \<inter> set digits \<noteq> {})"
                by (simp add: plain_token_def)
              with c1 c2 c3 c4 c5 c6 err show ?thesis
                by (simp add: transform_token_def split: if_splits)
            qed
          qed
        qed
      qed
    qed
  qed
qed

lemma transform_loop_Inl:
  "well_formed st \<Longrightarrow> \<forall>t\<in>set tokens. plain_token variables t \<Longrightarrow>
   transform_loop variables st tokens = Inl e \<Longrightarrow> e = InvalidExpression"
proof (induction tokens arbitrary: st)
  case Nil
  then show ?case by simp
next
  case (Cons token tokens)
  show ?case
  proof (cases "transform_token variables st token")
    case (Inl e')
    with Cons.prems(3) have "e' = e" by simp
    with Inl Cons.prems(1,2) show ?thesis
      using transform_token_Inl [of st variables token e] by simp
  next
    case (Inr st1)
    with Cons.prems(3) have "transform_loop variables st1 tokens = Inl e"
      by simp
    moreover from Cons.prems(1) Inr have "well_formed st1"
      by (rule well_formed_transform_token)
    moreover from Cons.prems(2) have "\<forall>t\<in>set tokens. plain_token variables t"
      by simp
    ultimately show ?thesis
      using Cons.IH by blast
  qed
qed

lemma transform_Inl_plain:
  assumes "\<forall>t\<in>set tokens. plain_token variables t"
    and "transform_infix_to_postfix variables tokens = Inl e"
  shows "e = InvalidExpression"
proof (cases "transform_loop variables initial_state tokens")
  case (Inl e')
  with assms(2) have "e' = e"
    by (simp add: transform_infix_to_postfix_def)
  with Inl assms(1) show ?thesis
    using transform_loop_Inl [OF well_formed_initial_state] by blast
next
  case (Inr st)
  with assms(2) have "transform_finish st = Inl e"
    by (simp add: transform_infix_to_postfix_def)
  then show ?thesis by (rule transform_finish_Inl)
qed

lemma pop_until_paren_no_paren:
  "''('' \<notin> set stack \<Longrightarrow> pop_until_paren stack out = ([], out @ map Str stack)"
  by (induction stack arbitrary: out) auto

lemma transform_token_close_unmatched:
  assumes "''('' \<notin> set (binary_operators_stack st)"
  shows "transform_token variables st '')'' = Inl InvalidExpression"
  by (simp add: transform_token_def in_binary_operators_def in_unary_operators_def
      digits_def ascii_letters_def pop_until_paren_no_paren [OF assms])

lemma transform_finish_open:
  assumes "''('' \<in> set (binary_operators_stack st)"
  shows "transform_finish st = Inl InvalidExpression"
proof -
  from assms have "dropWhile (\<lambda>s. s \<noteq> ''('') (binary_operators_stack st) \<noteq> []"
    by (auto simp add: dropWhile_eq_Nil_conv)
  then show ?thesis
    by (auto simp add: transform_finish_def pop_until_paren_eq split: list.splits)
qed

text \<open>
  C7. The claim is that every token sequence with unbalanced parentheses makes the
  transformer raise \<^verbatim>\<open>InvalidExpression\<close>. The transformer raises at the first token
  that is wrong: with no variable defined, the tokens \<^verbatim>\<open>x )\<close> are unbalanced and raise
  \<^verbatim>\<open>UnknownVariable\<close> at \<^verbatim>\<open>x\<close>, before the parenthesis is read.
\<close>

theorem unbalanced_after_unknown_variable:
  "\<not> balanced [''x'', '')'']
   \<and> transform_infix_to_postfix Map.empty [''x'', '')''] = Inl UnknownVariable"
  by (simp add: balanced_def transform_infix_to_postfix_def initial_state_def
      transform_token_def in_unary_operators_def digits_def ascii_letters_def)

text \<open>
  C7, as the code has it. A token sequence with unbalanced parentheses is never
  transformed: the transformer raises. It raises \<^verbatim>\<open>InvalidExpression\<close> when no token
  raises another exception first, which is so when every token is plain. A \<^verbatim>\<open>)\<close> that
  finds no \<^verbatim>\<open>(\<close> on the operator stack raises \<^verbatim>\<open>InvalidExpression\<close> at that token,
  and a \<^verbatim>\<open>(\<close> left on the operator stack raises it after the scan. The
  tokens \<^verbatim>\<open>( 1 + 2\<close> and \<^verbatim>\<open>1 + 2 )\<close> raise \<^verbatim>\<open>InvalidExpression\<close>.
\<close>

theorem unbalanced_parentheses_raise:
  "(\<not> balanced tokens \<longrightarrow> (\<exists>e. transform_infix_to_postfix variables tokens = Inl e))
   \<and> (\<not> balanced tokens \<and> (\<forall>t\<in>set tokens. plain_token variables t) \<longrightarrow>
        transform_infix_to_postfix variables tokens = Inl InvalidExpression)
   \<and> (''('' \<notin> set (binary_operators_stack st) \<longrightarrow>
        transform_token variables st '')'' = Inl InvalidExpression)
   \<and> (''('' \<in> set (binary_operators_stack st) \<longrightarrow>
        transform_finish st = Inl InvalidExpression)
   \<and> transform_infix_to_postfix variables [''('', ''1'', ''+'', ''2'']
       = Inl InvalidExpression
   \<and> transform_infix_to_postfix variables [''1'', ''+'', ''2'', '')'']
       = Inl InvalidExpression"
proof -
  have fails: "\<exists>e. transform_infix_to_postfix variables tokens = Inl e"
    if "\<not> balanced tokens"
  proof (cases "transform_infix_to_postfix variables tokens")
    case (Inl e)
    then show ?thesis by blast
  next
    case (Inr postfix)
    then have "balanced tokens" by (rule transform_Inr_balanced)
    with that show ?thesis by simp
  qed
  have invalid: "transform_infix_to_postfix variables tokens = Inl InvalidExpression"
    if "\<not> balanced tokens \<and> (\<forall>t\<in>set tokens. plain_token variables t)"
  proof -
    from that fails obtain e where e: "transform_infix_to_postfix variables tokens = Inl e"
      by blast
    with that have "e = InvalidExpression"
      using transform_Inl_plain by blast
    with e show ?thesis by simp
  qed
  have left: "transform_infix_to_postfix variables [''('', ''1'', ''+'', ''2'']
       = Inl InvalidExpression"
    by (simp add: transform_infix_to_postfix_def initial_state_def transform_token_def
        in_binary_operators_def in_unary_operators_def digits_def py_int_of_str_def
        digit_value_def emit_operand_def transform_finish_def precedence_def
        ascii_letters_def)
  have right: "transform_infix_to_postfix variables [''1'', ''+'', ''2'', '')'']
       = Inl InvalidExpression"
    by (simp add: transform_infix_to_postfix_def initial_state_def transform_token_def
        in_binary_operators_def in_unary_operators_def digits_def py_int_of_str_def
        digit_value_def emit_operand_def transform_finish_def precedence_def
        ascii_letters_def)
  from fails invalid left right transform_token_close_unmatched transform_finish_open
  show ?thesis by blast
qed

theorem unbalanced_parentheses_raise_witness:
  "\<not> balanced [''('', ''1'', ''+'', ''2'']
   \<and> plain_token Map.empty ''('' \<and> plain_token Map.empty ''1''
   \<and> plain_token Map.empty ''+'' \<and> plain_token Map.empty ''2''
   \<and> ''('' \<notin> set (binary_operators_stack initial_state)
   \<and> (\<exists>e. transform_infix_to_postfix Map.empty [''('', ''1'', ''+'', ''2''] = Inl e)
   \<and> transform_infix_to_postfix Map.empty [''('', ''1'', ''+'', ''2'']
       = Inl InvalidExpression
   \<and> transform_token Map.empty initial_state '')'' = Inl InvalidExpression
   \<and> ''('' \<in> set (binary_operators_stack
                    (initial_state\<lparr>binary_operators_stack := [''+'', ''('']\<rparr>))
   \<and> transform_finish (initial_state\<lparr>binary_operators_stack := [''+'', ''('']\<rparr>)
       = Inl InvalidExpression"
proof -
  have a: "\<not> balanced [''('', ''1'', ''+'', ''2'']"
    by (simp add: balanced_def)
  have b: "plain_token Map.empty ''(''" "plain_token Map.empty ''1''"
    "plain_token Map.empty ''+''" "plain_token Map.empty ''2''"
    by (simp_all add: plain_token_def ascii_letters_def digits_def)
  then have all: "\<forall>t\<in>set [''('', ''1'', ''+'', ''2'']. plain_token Map.empty t"
    by simp
  have c: "''('' \<notin> set (binary_operators_stack initial_state)"
    by (simp add: initial_state_def)
  have d: "''('' \<in> set (binary_operators_stack
                    (initial_state\<lparr>binary_operators_stack := [''+'', ''('']\<rparr>))"
    by simp
  note i1 = unbalanced_parentheses_raise [where tokens = "[''('', ''1'', ''+'', ''2'']"
      and variables = Map.empty and st = initial_state]
  note i2 = unbalanced_parentheses_raise [where tokens = "[''('', ''1'', ''+'', ''2'']"
      and variables = Map.empty
      and st = "initial_state\<lparr>binary_operators_stack := [''+'', ''('']\<rparr>"]
  from i1 a have e: "\<exists>e. transform_infix_to_postfix Map.empty [''('', ''1'', ''+'', ''2'']
      = Inl e"
    by blast
  from i1 a all have f: "transform_infix_to_postfix Map.empty [''('', ''1'', ''+'', ''2'']
      = Inl InvalidExpression"
    by blast
  from i1 c have g: "transform_token Map.empty initial_state '')'' = Inl InvalidExpression"
    by blast
  from i2 d have h: "transform_finish (initial_state\<lparr>binary_operators_stack := [''+'', ''('']\<rparr>)
      = Inl InvalidExpression"
    by blast
  from a b c d e f g h show ?thesis
    by (intro conjI)
qed

subsection \<open>The variables\<close>

lemma transform_loop_agree:
  "\<forall>t\<in>set tokens. variables1 t = variables2 t \<Longrightarrow>
   transform_loop variables1 st tokens = transform_loop variables2 st tokens"
proof (induction tokens arbitrary: st)
  case Nil
  then show ?case by simp
next
  case (Cons token tokens)
  from Cons.prems have head: "variables1 token = variables2 token"
    and tail: "\<forall>t\<in>set tokens. variables1 t = variables2 t"
    by simp_all
  have step: "transform_token variables1 st token = transform_token variables2 st token"
    using head by (simp add: transform_token_def)
  show ?case
  proof (cases "transform_token variables2 st token")
    case (Inl e)
    with step have "transform_token variables1 st token = Inl e"
      by simp
    with Inl show ?thesis by simp
  next
    case (Inr st1)
    with step have "transform_token variables1 st token = Inr st1"
      by simp
    with Inr Cons.IH [OF tail, of st1] show ?thesis by simp
  qed
qed

text \<open>
  C9. \<^verbatim>\<open>process_expression\<close> leaves the variables as they are, whatever the line and the
  outcome. \<^verbatim>\<open>process_assignment\<close> leaves them as they are when the line has no
  \<^verbatim>\<open>=\<close> to split at, when the identifier is not made of letters, and when the
  right-hand side raises; when the right-hand side has a value, the identifier is bound to
  it and nothing is printed. In every case the value of every other name is unchanged.
\<close>

theorem variables_changed_only_by_assignment:
  "fst (process_expression rt variables line) = variables
   \<and> (split_once '' = '' [] (remove_extra_spaces line) = Inl e \<longrightarrow>
        fst (process_assignment rt variables line) = variables)
   \<and> (split_once '' = '' [] (remove_extra_spaces line) = Inr (identifier, expression) \<longrightarrow>
        (if set identifier \<subseteq> set ascii_letters
         then (case evaluate rt variables (split expression) of
                 Inr v \<Rightarrow>
                   process_assignment rt variables line
                     = (variables(identifier \<mapsto> v), Nothing)
               | Inl e' \<Rightarrow> fst (process_assignment rt variables line) = variables)
         else process_assignment rt variables line
                = (variables, Print ''Invalid identifier''))
        \<and> (\<forall>name. name \<noteq> identifier \<longrightarrow>
              fst (process_assignment rt variables line) name = variables name))"
proof (intro conjI impI)
  show "fst (process_expression rt variables line) = variables"
    by (simp add: process_expression_def Let_def)
next
  assume "split_once '' = '' [] (remove_extra_spaces line) = Inl e"
  then show "fst (process_assignment rt variables line) = variables"
    by (simp add: process_assignment_def)
next
  assume parts: "split_once '' = '' [] (remove_extra_spaces line)
      = Inr (identifier, expression)"
  show "if set identifier \<subseteq> set ascii_letters
        then (case evaluate rt variables (split expression) of
                Inr v \<Rightarrow>
                  process_assignment rt variables line
                    = (variables(identifier \<mapsto> v), Nothing)
              | Inl e' \<Rightarrow> fst (process_assignment rt variables line) = variables)
        else process_assignment rt variables line
               = (variables, Print ''Invalid identifier'')"
  proof (cases "set identifier \<subseteq> set ascii_letters")
    case False
    with parts show ?thesis
      by (simp add: process_assignment_def)
  next
    case True
    show ?thesis
    proof (cases "evaluate rt variables (split expression)")
      case (Inr v)
      with parts True show ?thesis
        by (simp add: process_assignment_def)
    next
      case (Inl e')
      with parts True have "fst (process_assignment rt variables line) = variables"
        by (cases e') (simp_all add: process_assignment_def)
      with True Inl show ?thesis
        by simp
    qed
  qed
  show "\<forall>name. name \<noteq> identifier \<longrightarrow>
      fst (process_assignment rt variables line) name = variables name"
  proof (cases "set identifier \<subseteq> set ascii_letters")
    case False
    with parts show ?thesis
      by (simp add: process_assignment_def)
  next
    case True
    show ?thesis
    proof (cases "evaluate rt variables (split expression)")
      case (Inr v)
      with parts True show ?thesis
        by (simp add: process_assignment_def)
    next
      case (Inl e')
      with parts True have "fst (process_assignment rt variables line) = variables"
        by (cases e') (simp_all add: process_assignment_def)
      then show ?thesis
        by simp
    qed
  qed
qed

theorem variables_changed_only_by_assignment_witness:
  "split_once '' = '' [] (remove_extra_spaces ''45'') = Inl ValueError
   \<and> fst (process_assignment raising_runtime Map.empty ''45'') = Map.empty
   \<and> split_once '' = '' [] (remove_extra_spaces ''x=4+5'') = Inr (''x'', ''4 + 5'')
   \<and> set ''x'' \<subseteq> set ascii_letters
   \<and> evaluate raising_runtime Map.empty (split ''4 + 5'') = Inr (PyInt 9)
   \<and> process_assignment raising_runtime Map.empty ''x=4+5''
       = ([''x'' \<mapsto> PyInt 9], Nothing)
   \<and> ''y'' \<noteq> ''x''
   \<and> fst (process_assignment raising_runtime Map.empty ''x=4+5'') ''y'' = None"
proof -
  have "remove_extra_spaces ''45'' = ''45''"
    by code_simp
  then have a: "split_once '' = '' [] (remove_extra_spaces ''45'') = Inl ValueError"
    by (simp add: split_once.simps)
  have "remove_extra_spaces ''x=4+5'' = ''x = 4 + 5''"
    by code_simp
  then have b: "split_once '' = '' [] (remove_extra_spaces ''x=4+5'')
      = Inr (''x'', ''4 + 5'')"
    by (simp add: split_once.simps)
  have c: "set ''x'' \<subseteq> set ascii_letters"
    by (simp add: ascii_letters_def)
  have d: "evaluate raising_runtime Map.empty (split ''4 + 5'') = Inr (PyInt 9)"
    by code_simp
  have e: "''y'' \<noteq> ''x''"
    by simp
  note i1 = variables_changed_only_by_assignment [of raising_runtime Map.empty
      "''45''" ValueError]
  note i2 = variables_changed_only_by_assignment [of raising_runtime Map.empty
      "''x=4+5''" _ "''x''" "''4 + 5''"]
  from i1 a have f: "fst (process_assignment raising_runtime Map.empty ''45'') = Map.empty"
    by blast
  from i2 b c d have g: "process_assignment raising_runtime Map.empty ''x=4+5''
       = ([''x'' \<mapsto> PyInt 9], Nothing)"
    by simp
  from i2 b e have h: "fst (process_assignment raising_runtime Map.empty ''x=4+5'') ''y''
      = None"
    by simp
  from a f b c d g e h show ?thesis
    by (intro conjI)
qed

subsection \<open>What the transformation reads of the variables\<close>

text \<open>
  The transformation looks the variables up at the tokens only: with variables that have
  the same values at the tokens, the postfix sequence and the result are the same.
\<close>

lemma outcome_depends_on_token_values:
  assumes "\<forall>t\<in>set tokens. variables1 t = variables2 t"
  shows "transform_infix_to_postfix variables1 tokens
       = transform_infix_to_postfix variables2 tokens"
    and "evaluate rt variables1 tokens = evaluate rt variables2 tokens"
proof -
  from assms have "transform_loop variables1 initial_state tokens
      = transform_loop variables2 initial_state tokens"
    by (rule transform_loop_agree)
  then show "transform_infix_to_postfix variables1 tokens
      = transform_infix_to_postfix variables2 tokens"
    by (simp add: transform_infix_to_postfix_def)
  then show "evaluate rt variables1 tokens = evaluate rt variables2 tokens"
    by (simp add: evaluate_def)
qed

end
